theory Spec2Isabelle
  imports Complex_Main "HOL-Library.Log_Nat"
begin

section \<open>Time-on-task: the data model\<close>

text \<open>
  The three scripts (\<^verbatim>\<open>src/perStudent.js\<close>, \<^verbatim>\<open>combined.js\<close> and the per-class script)
  fold a list of events over two JavaScript objects: \<^verbatim>\<open>activeSessions\<close>, from the key
  \<^verbatim>\<open>`${id}-${taskId}`\<close> to a session object, and \<^verbatim>\<open>timeOnTask\<close>, from the id to the running
  total. Both are passed explicitly here and returned updated.

  An event row has the columns read by the scripts; \<^verbatim>\<open>userId\<close> and \<^verbatim>\<open>classId\<close> are
  INTEGER columns, \<^verbatim>\<open>client_time\<close> a FLOAT. A JavaScript number is a double; it is
  modelled as the real number it denotes. The functions that compute with times are
  given twice. Under the names of the source they compute with exact arithmetic, which
  settles every property that does not hang on the last bit of a result. With the suffix
  \<open>_dbl\<close> every subtraction and addition is rounded to the nearest double, as the scripts
  compute it; the properties that do hang on the amounts and on the place of the one-hour
  bound are stated there.
\<close>

record event =
  userId :: int
  classId :: int
  taskId :: string
  action :: string
  client_time :: real

text \<open>
  The session object \<^verbatim>\<open>{startTime, pausedTime, isPaused}\<close>; the property
  \<^verbatim>\<open>pauseStartTime\<close> does not exist until the first pause.
\<close>

record session =
  startTime :: real
  pausedTime :: real
  isPaused :: bool
  pauseStartTime :: "real option"

type_synonym activeSessions = "string \<rightharpoonup> session"

subsection \<open>The session key\<close>

text \<open>
  The template literal \<^verbatim>\<open>`${id}-${taskId}`\<close> renders the integer id in decimal
  (with a leading minus sign when negative) and appends a hyphen and the task id.
\<close>

definition digitChar :: "nat \<Rightarrow> char" where
  "digitChar d = ''0123456789'' ! d"

fun digitsOf :: "nat \<Rightarrow> string" where
  "digitsOf n = (if n < 10 then [digitChar n] else digitsOf (n div 10) @ [digitChar (n mod 10)])"

declare digitsOf.simps [simp del]

definition numberToString :: "int \<Rightarrow> string" where
  "numberToString i = (if i < 0 then CHR ''-'' # digitsOf (nat (- i)) else digitsOf (nat i))"

definition sessionKey :: "int \<Rightarrow> string \<Rightarrow> string" where
  "sessionKey i t = numberToString i @ ''-'' @ t"

subsection \<open>The totals object and its property order\<close>

text \<open>
  \<^verbatim>\<open>timeOnTask\<close> is an ordinary object whose property keys are the ids converted to
  strings. \<^verbatim>\<open>Object.entries\<close> lists own properties in the order of the language:
  first the keys that are array indices (the canonical decimal strings of the integers
  from 0 to 2^32 - 2) in ascending numeric order, then the other string keys in the
  order in which they were created. The object is therefore an association list kept in
  that order, keyed by the integer id itself (\<^verbatim>\<open>parseInt(String(id), 10)\<close> is \<^verbatim>\<open>id\<close>).
\<close>

type_synonym timeOnTask = "(int \<times> real) list"

definition isArrayIndex :: "int \<Rightarrow> bool" where
  "isArrayIndex k = (0 \<le> k \<and> k < 4294967295)"

fun insertProp :: "int \<Rightarrow> real \<Rightarrow> timeOnTask \<Rightarrow> timeOnTask" where
  "insertProp k v [] = [(k, v)]"
| "insertProp k v ((k', v') # ps) =
     (if isArrayIndex k \<and> (\<not> isArrayIndex k' \<or> k < k') then (k, v) # (k', v') # ps
      else (k', v') # insertProp k v ps)"

fun updateProp :: "int \<Rightarrow> real \<Rightarrow> timeOnTask \<Rightarrow> timeOnTask" where
  "updateProp k v [] = []"
| "updateProp k v ((k', v') # ps) =
     (if k' = k then (k', v) # ps else (k', v') # updateProp k v ps)"

text \<open>The assignment \<^verbatim>\<open>obj[k] = v\<close>: an existing property keeps its place.\<close>

definition setProp :: "int \<Rightarrow> real \<Rightarrow> timeOnTask \<Rightarrow> timeOnTask" where
  "setProp k v ps = (case map_of ps k of None \<Rightarrow> insertProp k v ps | Some _ \<Rightarrow> updateProp k v ps)"

text \<open>
  The two statements
  \<^verbatim>\<open>if (!timeOnTask[id]) { timeOnTask[id] = 0; }  timeOnTask[id] += d;\<close>
  shared by every \<^verbatim>\<open>finishSession\<close>. The test is true for a missing property and for
  the value 0; after the first statement the property exists, so the read of the second
  one finds a number.
\<close>

definition addToTotal :: "int \<Rightarrow> real \<Rightarrow> timeOnTask \<Rightarrow> timeOnTask" where
  "addToTotal k d ps =
     (let ps0 = (case map_of ps k of
                   None \<Rightarrow> setProp k 0 ps
                 | Some v \<Rightarrow> if v = 0 then setProp k 0 ps else ps)
      in case map_of ps0 k of
           None \<Rightarrow> ps0
         | Some v \<Rightarrow> setProp k (v + d) ps0)"

subsection \<open>Double-precision arithmetic\<close>

text \<open>
  A nonzero real \<open>x\<close> with \<open>2^e \<le> \<bar>x\<bar> < 2^(e+1)\<close> is rounded to the nearest multiple of
  \<open>2^(e-52)\<close>, a tie going to the even multiple: the 53-bit significand of the binary64
  format with round-to-nearest, ties-to-even, the rounding of every JavaScript operation.
  The exponent range is not bounded. A sum or difference of two doubles that falls below
  the normal range is a multiple of the smallest subnormal and is returned exactly by
  both; results beyond the largest double (about 1.8e308), where JavaScript gives
  \<^verbatim>\<open>Infinity\<close>, are outside the model, as are \<^verbatim>\<open>NaN\<close> and \<^verbatim>\<open>Infinity\<close> as inputs: the
  times come from a FLOAT column.
\<close>

definition roundHalfEven :: "real \<Rightarrow> int" where
  "roundHalfEven y =
     (let n = \<lfloor>y\<rfloor>; r = y - of_int n
      in if r < 1 / 2 then n else if 1 / 2 < r then n + 1 else if even n then n else n + 1)"

definition twoTo :: "int \<Rightarrow> real" where
  "twoTo e = (if 0 \<le> e then 2 ^ nat e else 1 / 2 ^ nat (- e))"

text \<open>The exponent \<open>e\<close> with \<open>2^e \<le> \<bar>x\<bar> < 2^(e+1)\<close>, for \<open>x\<close> other than 0.\<close>

definition binaryExponent :: "real \<Rightarrow> int" where
  "binaryExponent x =
     (if 1 \<le> \<bar>x\<bar> then bitlen \<lfloor>\<bar>x\<bar>\<rfloor> - 1
      else (let b = bitlen \<lfloor>1 / \<bar>x\<bar>\<rfloor> - 1
            in if \<bar>x\<bar> * twoTo b = 1 then - b else - b - 1))"

definition toDouble :: "real \<Rightarrow> real" where
  "toDouble x =
     (if x = 0 then 0
      else (let u = twoTo (binaryExponent x - 52)
            in of_int (roundHalfEven (x / u)) * u))"

text \<open>The operators \<^verbatim>\<open>-\<close> and \<^verbatim>\<open>+\<close> (and \<^verbatim>\<open>+=\<close>) on numbers.\<close>

definition dblSub :: "real \<Rightarrow> real \<Rightarrow> real" where
  "dblSub a b = toDouble (a - b)"

definition dblAdd :: "real \<Rightarrow> real \<Rightarrow> real" where
  "dblAdd a b = toDouble (a + b)"

text \<open>The two statements of \<open>addToTotal\<close> with the addition of \<^verbatim>\<open>+=\<close> rounded.\<close>

definition addToTotal_dbl :: "int \<Rightarrow> real \<Rightarrow> timeOnTask \<Rightarrow> timeOnTask" where
  "addToTotal_dbl k d ps =
     (let ps0 = (case map_of ps k of
                   None \<Rightarrow> setProp k 0 ps
                 | Some v \<Rightarrow> if v = 0 then setProp k 0 ps else ps)
      in case map_of ps0 k of
           None \<Rightarrow> ps0
         | Some v \<Rightarrow> setProp k (dblAdd v d) ps0)"

section \<open>The per-student script\<close>

definition perStudent_startSession :: "string \<Rightarrow> real \<Rightarrow> activeSessions \<Rightarrow> activeSessions" where
  "perStudent_startSession key clientTime activeSessions =
     (case activeSessions key of
        None \<Rightarrow> activeSessions(key \<mapsto>
                 \<lparr>startTime = clientTime, pausedTime = 0, isPaused = False, pauseStartTime = None\<rparr>)
      | Some s \<Rightarrow> activeSessions)"

definition perStudent_pauseSession :: "string \<Rightarrow> real \<Rightarrow> activeSessions \<Rightarrow> activeSessions" where
  "perStudent_pauseSession key clientTime activeSessions =
     (case activeSessions key of
        None \<Rightarrow> activeSessions
      | Some s \<Rightarrow>
          if \<not> isPaused s
          then activeSessions(key \<mapsto> s\<lparr>isPaused := True, pauseStartTime := Some clientTime\<rparr>)
          else activeSessions)"

text \<open>
  In \<^verbatim>\<open>unpauseSession\<close> the read of \<^verbatim>\<open>pauseStartTime\<close> happens under \<^verbatim>\<open>isPaused\<close>, which
  only \<^verbatim>\<open>pauseSession\<close> sets, together with \<^verbatim>\<open>pauseStartTime\<close>: the property is always
  there (lemma \<open>perStudent_paused_has_start\<close> below). The case of a paused session
  without it, which no run reaches, is given the unchanged table.
\<close>

definition perStudent_unpauseSession :: "string \<Rightarrow> real \<Rightarrow> activeSessions \<Rightarrow> activeSessions" where
  "perStudent_unpauseSession key clientTime activeSessions =
     (case activeSessions key of
        None \<Rightarrow> activeSessions
      | Some s \<Rightarrow>
          if isPaused s
          then (case pauseStartTime s of
                  None \<Rightarrow> activeSessions
                | Some p \<Rightarrow>
                    (let pauseDuration = clientTime - p
                     in activeSessions(key \<mapsto>
                          s\<lparr>pausedTime := pausedTime s + pauseDuration, isPaused := False\<rparr>)))
          else activeSessions)"

text \<open>
  The condition of the source is \<^verbatim>\<open>clientTime > startTime && clientTime - startTime\<close>:
  the second conjunct is a number, true when it is not zero.
\<close>

definition perStudent_finishSession ::
  "string \<Rightarrow> real \<Rightarrow> activeSessions \<Rightarrow> timeOnTask \<Rightarrow> int \<Rightarrow> activeSessions \<times> timeOnTask" where
  "perStudent_finishSession key clientTime activeSessions timeOnTask uid =
     (case activeSessions key of
        None \<Rightarrow> (activeSessions, timeOnTask)
      | Some s \<Rightarrow>
          (activeSessions(key := None),
           if clientTime > startTime s \<and> clientTime - startTime s \<noteq> 0
           then (let sessionDuration = clientTime - startTime s - pausedTime s
                 in addToTotal uid (max 0 sessionDuration) timeOnTask)
           else timeOnTask))"

definition perStudent_processEvent ::
  "event \<Rightarrow> activeSessions \<times> timeOnTask \<Rightarrow> activeSessions \<times> timeOnTask" where
  "perStudent_processEvent ev st =
     (case st of (activeSessions, timeOnTask) \<Rightarrow>
        (let key = sessionKey (userId ev) (taskId ev);
             clientTime = client_time ev
         in if action ev = ''started''
            then (perStudent_startSession key clientTime activeSessions, timeOnTask)
            else if action ev = ''paused''
            then (perStudent_pauseSession key clientTime activeSessions, timeOnTask)
            else if action ev = ''unpaused''
            then (perStudent_unpauseSession key clientTime activeSessions, timeOnTask)
            else if action ev = ''finished''
            then perStudent_finishSession key clientTime activeSessions timeOnTask (userId ev)
            else (activeSessions, timeOnTask)))"

definition perStudent_processEvents :: "event list \<Rightarrow> timeOnTask" where
  "perStudent_processEvents events = snd (fold perStudent_processEvent events (Map.empty, []))"

section \<open>The combined script\<close>

text \<open>
  \<^verbatim>\<open>combined.js\<close> takes the name of the id column as a parameter; its two call sites
  pass \<^verbatim>\<open>"userId"\<close> and \<^verbatim>\<open>"classId"\<close>, and \<^verbatim>\<open>event[idField]\<close> reads that column.
\<close>

datatype idField = UserIdField | ClassIdField

fun eventField :: "event \<Rightarrow> idField \<Rightarrow> int" where
  "eventField ev UserIdField = userId ev"
| "eventField ev ClassIdField = classId ev"

definition combined_startSession :: "string \<Rightarrow> real \<Rightarrow> activeSessions \<Rightarrow> activeSessions" where
  "combined_startSession key clientTime activeSessions =
     (case activeSessions key of
        None \<Rightarrow> activeSessions(key \<mapsto>
                 \<lparr>startTime = clientTime, pausedTime = 0, isPaused = False, pauseStartTime = None\<rparr>)
      | Some s \<Rightarrow> activeSessions)"

definition combined_pauseSession :: "string \<Rightarrow> real \<Rightarrow> activeSessions \<Rightarrow> activeSessions" where
  "combined_pauseSession key clientTime activeSessions =
     (case activeSessions key of
        None \<Rightarrow> activeSessions
      | Some s \<Rightarrow>
          if \<not> isPaused s
          then activeSessions(key \<mapsto> s\<lparr>isPaused := True, pauseStartTime := Some clientTime\<rparr>)
          else activeSessions)"

definition combined_unpauseSession :: "string \<Rightarrow> real \<Rightarrow> activeSessions \<Rightarrow> activeSessions" where
  "combined_unpauseSession key clientTime activeSessions =
     (case activeSessions key of
        None \<Rightarrow> activeSessions
      | Some s \<Rightarrow>
          if isPaused s
          then (case pauseStartTime s of
                  None \<Rightarrow> activeSessions
                | Some p \<Rightarrow>
                    (let pauseDuration = clientTime - p
                     in activeSessions(key \<mapsto>
                          s\<lparr>pausedTime := pausedTime s + pauseDuration, isPaused := False\<rparr>)))
          else activeSessions)"

definition combined_finishSession ::
  "string \<Rightarrow> real \<Rightarrow> activeSessions \<Rightarrow> timeOnTask \<Rightarrow> int \<Rightarrow> activeSessions \<times> timeOnTask" where
  "combined_finishSession key clientTime activeSessions timeOnTask ident =
     (case activeSessions key of
        None \<Rightarrow> (activeSessions, timeOnTask)
      | Some s \<Rightarrow>
          (activeSessions(key := None),
           if clientTime > startTime s \<and> clientTime - startTime s < 3600
           then (let sessionDuration = clientTime - startTime s - pausedTime s
                 in addToTotal ident (max 0 sessionDuration) timeOnTask)
           else timeOnTask))"

definition combined_processEvent ::
  "event \<Rightarrow> idField \<Rightarrow> activeSessions \<times> timeOnTask \<Rightarrow> activeSessions \<times> timeOnTask" where
  "combined_processEvent ev idf st =
     (case st of (activeSessions, timeOnTask) \<Rightarrow>
        (let ident = eventField ev idf;
             key = sessionKey ident (taskId ev);
             clientTime = client_time ev
         in if action ev = ''started''
            then (combined_startSession key clientTime activeSessions, timeOnTask)
            else if action ev = ''application-paused''
            then (combined_pauseSession key clientTime activeSessions, timeOnTask)
            else if action ev = ''application-unpaused''
            then (combined_unpauseSession key clientTime activeSessions, timeOnTask)
            else if action ev = ''finished''
            then combined_finishSession key clientTime activeSessions timeOnTask ident
            else (activeSessions, timeOnTask)))"

definition combined_processEvents :: "event list \<Rightarrow> idField \<Rightarrow> timeOnTask" where
  "combined_processEvents events idf =
     snd (fold (\<lambda>ev. combined_processEvent ev idf) events (Map.empty, []))"

section \<open>The per-class script\<close>

text \<open>
  The per-class script declares \<^verbatim>\<open>processEvent(event, activeSessions, timeOnTask)\<close> with
  three parameters and reads \<^verbatim>\<open>classId\<close> directly; \<^verbatim>\<open>processEvents\<close> still passes
  \<^verbatim>\<open>idField\<close> as a fourth argument, which is dropped.
\<close>

definition perClass_startSession :: "string \<Rightarrow> real \<Rightarrow> activeSessions \<Rightarrow> activeSessions" where
  "perClass_startSession key clientTime activeSessions =
     (case activeSessions key of
        None \<Rightarrow> activeSessions(key \<mapsto>
                 \<lparr>startTime = clientTime, pausedTime = 0, isPaused = False, pauseStartTime = None\<rparr>)
      | Some s \<Rightarrow> activeSessions)"

definition perClass_pauseSession :: "string \<Rightarrow> real \<Rightarrow> activeSessions \<Rightarrow> activeSessions" where
  "perClass_pauseSession key clientTime activeSessions =
     (case activeSessions key of
        None \<Rightarrow> activeSessions
      | Some s \<Rightarrow>
          if \<not> isPaused s
          then activeSessions(key \<mapsto> s\<lparr>isPaused := True, pauseStartTime := Some clientTime\<rparr>)
          else activeSessions)"

definition perClass_unpauseSession :: "string \<Rightarrow> real \<Rightarrow> activeSessions \<Rightarrow> activeSessions" where
  "perClass_unpauseSession key clientTime activeSessions =
     (case activeSessions key of
        None \<Rightarrow> activeSessions
      | Some s \<Rightarrow>
          if isPaused s
          then (case pauseStartTime s of
                  None \<Rightarrow> activeSessions
                | Some p \<Rightarrow>
                    (let pauseDuration = clientTime - p
                     in activeSessions(key \<mapsto>
                          s\<lparr>pausedTime := pausedTime s + pauseDuration, isPaused := False\<rparr>)))
          else activeSessions)"

definition perClass_finishSession ::
  "string \<Rightarrow> real \<Rightarrow> activeSessions \<Rightarrow> timeOnTask \<Rightarrow> int \<Rightarrow> activeSessions \<times> timeOnTask" where
  "perClass_finishSession key clientTime activeSessions timeOnTask ident =
     (case activeSessions key of
        None \<Rightarrow> (activeSessions, timeOnTask)
      | Some s \<Rightarrow>
          (activeSessions(key := None),
           if clientTime > startTime s \<and> clientTime - startTime s < 3600
           then (let sessionDuration = clientTime - startTime s - pausedTime s
                 in addToTotal ident (max 0 sessionDuration) timeOnTask)
           else timeOnTask))"

definition perClass_processEvent ::
  "event \<Rightarrow> activeSessions \<times> timeOnTask \<Rightarrow> activeSessions \<times> timeOnTask" where
  "perClass_processEvent ev st =
     (case st of (activeSessions, timeOnTask) \<Rightarrow>
        (let ident = classId ev;
             key = sessionKey ident (taskId ev);
             clientTime = client_time ev
         in if action ev = ''started''
            then (perClass_startSession key clientTime activeSessions, timeOnTask)
            else if action ev = ''application-paused''
            then (perClass_pauseSession key clientTime activeSessions, timeOnTask)
            else if action ev = ''application-unpaused''
            then (perClass_unpauseSession key clientTime activeSessions, timeOnTask)
            else if action ev = ''finished''
            then perClass_finishSession key clientTime activeSessions timeOnTask ident
            else (activeSessions, timeOnTask)))"

definition perClass_processEvents :: "event list \<Rightarrow> idField \<Rightarrow> timeOnTask" where
  "perClass_processEvents events idf = snd (fold perClass_processEvent events (Map.empty, []))"

section \<open>The per-student and the combined script in double arithmetic\<close>

text \<open>
  \<^verbatim>\<open>startSession\<close> and \<^verbatim>\<open>pauseSession\<close> compute nothing and are used as they are. In
  \<^verbatim>\<open>unpauseSession\<close> the delta \<^verbatim>\<open>clientTime - pauseStartTime\<close> and the sum
  \<^verbatim>\<open>pausedTime += pauseDuration\<close> are rounded; in \<^verbatim>\<open>finishSession\<close> the difference
  \<^verbatim>\<open>clientTime - startTime\<close> of the validity test, the duration
  \<^verbatim>\<open>clientTime - startTime - pausedTime\<close> (two subtractions, from the left) and the sum
  \<^verbatim>\<open>timeOnTask[id] += ...\<close>. Comparisons and \<^verbatim>\<open>Math.max\<close> are exact.
\<close>

definition perStudent_unpauseSession_dbl ::
  "string \<Rightarrow> real \<Rightarrow> activeSessions \<Rightarrow> activeSessions" where
  "perStudent_unpauseSession_dbl key clientTime activeSessions =
     (case activeSessions key of
        None \<Rightarrow> activeSessions
      | Some s \<Rightarrow>
          if isPaused s
          then (case pauseStartTime s of
                  None \<Rightarrow> activeSessions
                | Some p \<Rightarrow>
                    (let pauseDuration = dblSub clientTime p
                     in activeSessions(key \<mapsto>
                          s\<lparr>pausedTime := dblAdd (pausedTime s) pauseDuration,
                            isPaused := False\<rparr>)))
          else activeSessions)"

definition perStudent_finishSession_dbl ::
  "string \<Rightarrow> real \<Rightarrow> activeSessions \<Rightarrow> timeOnTask \<Rightarrow> int \<Rightarrow> activeSessions \<times> timeOnTask" where
  "perStudent_finishSession_dbl key clientTime activeSessions timeOnTask uid =
     (case activeSessions key of
        None \<Rightarrow> (activeSessions, timeOnTask)
      | Some s \<Rightarrow>
          (activeSessions(key := None),
           if clientTime > startTime s \<and> dblSub clientTime (startTime s) \<noteq> 0
           then (let sessionDuration = dblSub (dblSub clientTime (startTime s)) (pausedTime s)
                 in addToTotal_dbl uid (max 0 sessionDuration) timeOnTask)
           else timeOnTask))"

definition perStudent_processEvent_dbl ::
  "event \<Rightarrow> activeSessions \<times> timeOnTask \<Rightarrow> activeSessions \<times> timeOnTask" where
  "perStudent_processEvent_dbl ev st =
     (case st of (activeSessions, timeOnTask) \<Rightarrow>
        (let key = sessionKey (userId ev) (taskId ev);
             clientTime = client_time ev
         in if action ev = ''started''
            then (perStudent_startSession key clientTime activeSessions, timeOnTask)
            else if action ev = ''paused''
            then (perStudent_pauseSession key clientTime activeSessions, timeOnTask)
            else if action ev = ''unpaused''
            then (perStudent_unpauseSession_dbl key clientTime activeSessions, timeOnTask)
            else if action ev = ''finished''
            then perStudent_finishSession_dbl key clientTime activeSessions timeOnTask (userId ev)
            else (activeSessions, timeOnTask)))"

definition perStudent_processEvents_dbl :: "event list \<Rightarrow> timeOnTask" where
  "perStudent_processEvents_dbl events =
     snd (fold perStudent_processEvent_dbl events (Map.empty, []))"

definition combined_unpauseSession_dbl ::
  "string \<Rightarrow> real \<Rightarrow> activeSessions \<Rightarrow> activeSessions" where
  "combined_unpauseSession_dbl key clientTime activeSessions =
     (case activeSessions key of
        None \<Rightarrow> activeSessions
      | Some s \<Rightarrow>
          if isPaused s
          then (case pauseStartTime s of
                  None \<Rightarrow> activeSessions
                | Some p \<Rightarrow>
                    (let pauseDuration = dblSub clientTime p
                     in activeSessions(key \<mapsto>
                          s\<lparr>pausedTime := dblAdd (pausedTime s) pauseDuration,
                            isPaused := False\<rparr>)))
          else activeSessions)"

definition combined_finishSession_dbl ::
  "string \<Rightarrow> real \<Rightarrow> activeSessions \<Rightarrow> timeOnTask \<Rightarrow> int \<Rightarrow> activeSessions \<times> timeOnTask" where
  "combined_finishSession_dbl key clientTime activeSessions timeOnTask ident =
     (case activeSessions key of
        None \<Rightarrow> (activeSessions, timeOnTask)
      | Some s \<Rightarrow>
          (activeSessions(key := None),
           if clientTime > startTime s \<and> dblSub clientTime (startTime s) < 3600
           then (let sessionDuration = dblSub (dblSub clientTime (startTime s)) (pausedTime s)
                 in addToTotal_dbl ident (max 0 sessionDuration) timeOnTask)
           else timeOnTask))"

definition combined_processEvent_dbl ::
  "event \<Rightarrow> idField \<Rightarrow> activeSessions \<times> timeOnTask \<Rightarrow> activeSessions \<times> timeOnTask" where
  "combined_processEvent_dbl ev idf st =
     (case st of (activeSessions, timeOnTask) \<Rightarrow>
        (let ident = eventField ev idf;
             key = sessionKey ident (taskId ev);
             clientTime = client_time ev
         in if action ev = ''started''
            then (combined_startSession key clientTime activeSessions, timeOnTask)
            else if action ev = ''application-paused''
            then (combined_pauseSession key clientTime activeSessions, timeOnTask)
            else if action ev = ''application-unpaused''
            then (combined_unpauseSession_dbl key clientTime activeSessions, timeOnTask)
            else if action ev = ''finished''
            then combined_finishSession_dbl key clientTime activeSessions timeOnTask ident
            else (activeSessions, timeOnTask)))"

definition combined_processEvents_dbl :: "event list \<Rightarrow> idField \<Rightarrow> timeOnTask" where
  "combined_processEvents_dbl events idf =
     snd (fold (\<lambda>ev. combined_processEvent_dbl ev idf) events (Map.empty, []))"

section \<open>The result formatter\<close>

text \<open>
  \<^verbatim>\<open>new Date(totalTimeOnTask * 1000).toISOString().substr(11, 8)\<close>. The constructor
  clips its argument to a time value: a whole number of milliseconds, truncated towards
  zero, or no time value at all beyond 8.64e15 milliseconds on either side of the epoch,
  and then \<^verbatim>\<open>toISOString\<close> throws a RangeError.
\<close>

datatype jsError = RangeError

definition toIntegerOrInfinity :: "real \<Rightarrow> int" where
  "toIntegerOrInfinity x = (if 0 \<le> x then \<lfloor>x\<rfloor> else \<lceil>x\<rceil>)"

definition timeClip :: "real \<Rightarrow> int option" where
  "timeClip x = (if \<bar>x\<bar> > 8640000000000000 then None else Some (toIntegerOrInfinity x))"

definition msPerDay :: int where
  "msPerDay = 86400000"

definition dayOf :: "int \<Rightarrow> int" where
  "dayOf t = t div msPerDay"

definition hourFromTime :: "int \<Rightarrow> int" where
  "hourFromTime t = (t div 3600000) mod 24"

definition minFromTime :: "int \<Rightarrow> int" where
  "minFromTime t = (t div 60000) mod 60"

definition secFromTime :: "int \<Rightarrow> int" where
  "secFromTime t = (t div 1000) mod 60"

definition msFromTime :: "int \<Rightarrow> int" where
  "msFromTime t = t mod 1000"

text \<open>
  The calendar date of a day number (days since 1970-01-01) in the proleptic Gregorian
  calendar, computed per 400-year era of 146097 days with the year starting in March:
  the triple is (year, month from 1 to 12, day of the month).
\<close>

definition civilFromDays :: "int \<Rightarrow> int \<times> int \<times> int" where
  "civilFromDays z0 =
     (let z = z0 + 719468;
          era = z div 146097;
          doe = z mod 146097;
          yoe = (doe - doe div 1460 + doe div 36524 - doe div 146096) div 365;
          doy = doe - (365 * yoe + yoe div 4 - yoe div 100);
          mp = (5 * doy + 2) div 153;
          d = doy - (153 * mp + 2) div 5 + 1;
          m = (if mp < 10 then mp + 3 else mp - 9);
          y = yoe + era * 400 + (if m \<le> 2 then 1 else 0)
      in (y, m, d))"

definition padStart :: "nat \<Rightarrow> string \<Rightarrow> string" where
  "padStart n s = replicate (n - length s) CHR ''0'' @ s"

text \<open>
  Years from 0 to 9999 are written with four digits, the others with a sign and six.
\<close>

definition isoYear :: "int \<Rightarrow> string" where
  "isoYear y =
     (if 0 \<le> y \<and> y \<le> 9999 then padStart 4 (digitsOf (nat y))
      else (if y < 0 then CHR ''-'' else CHR ''+'') # padStart 6 (digitsOf (nat \<bar>y\<bar>)))"

definition toISOString :: "int \<Rightarrow> string" where
  "toISOString t =
     (case civilFromDays (dayOf t) of (y, m, d) \<Rightarrow>
        isoYear y @ ''-'' @ padStart 2 (digitsOf (nat m)) @ ''-'' @ padStart 2 (digitsOf (nat d))
        @ ''T'' @ padStart 2 (digitsOf (nat (hourFromTime t)))
        @ '':'' @ padStart 2 (digitsOf (nat (minFromTime t)))
        @ '':'' @ padStart 2 (digitsOf (nat (secFromTime t)))
        @ ''.'' @ padStart 3 (digitsOf (nat (msFromTime t))) @ ''Z'')"

definition substr :: "nat \<Rightarrow> nat \<Rightarrow> string \<Rightarrow> string" where
  "substr start len s = take len (drop start s)"

definition clockString :: "real \<Rightarrow> jsError + string" where
  "clockString secs =
     (case timeClip (secs * 1000) of
        None \<Rightarrow> Inl RangeError
      | Some t \<Rightarrow> Inr (substr 11 8 (toISOString t)))"

text \<open>
  One output object per property of \<^verbatim>\<open>timeOnTask\<close>, in the order of \<^verbatim>\<open>Object.entries\<close>.
  The per-student script names the first field \<^verbatim>\<open>userId\<close>, the other two \<^verbatim>\<open>id\<close>.
\<close>

record resultRow =
  rowId :: int
  totalTimeOnTask :: string

fun perStudent_formatTimeOnTaskResult :: "timeOnTask \<Rightarrow> jsError + resultRow list" where
  "perStudent_formatTimeOnTaskResult [] = Inr []"
| "perStudent_formatTimeOnTaskResult ((uid, secs) # ps) =
     (case clockString secs of
        Inl e \<Rightarrow> Inl e
      | Inr c \<Rightarrow>
          (case perStudent_formatTimeOnTaskResult ps of
             Inl e \<Rightarrow> Inl e
           | Inr rows \<Rightarrow> Inr (\<lparr>rowId = uid, totalTimeOnTask = c\<rparr> # rows)))"

fun combined_formatTimeOnTaskResult :: "timeOnTask \<Rightarrow> jsError + resultRow list" where
  "combined_formatTimeOnTaskResult [] = Inr []"
| "combined_formatTimeOnTaskResult ((ident, secs) # ps) =
     (case clockString secs of
        Inl e \<Rightarrow> Inl e
      | Inr c \<Rightarrow>
          (case combined_formatTimeOnTaskResult ps of
             Inl e \<Rightarrow> Inl e
           | Inr rows \<Rightarrow> Inr (\<lparr>rowId = ident, totalTimeOnTask = c\<rparr> # rows)))"

section \<open>Vocabulary of the properties\<close>

text \<open>
  The total of an entity read off the totals object, an entity without a property
  having contributed nothing so far.
\<close>

definition totalOf :: "timeOnTask \<Rightarrow> int \<Rightarrow> real" where
  "totalOf ps k = (case map_of ps k of None \<Rightarrow> 0 | Some v \<Rightarrow> v)"

definition mkEvent :: "int \<Rightarrow> int \<Rightarrow> string \<Rightarrow> string \<Rightarrow> real \<Rightarrow> event" where
  "mkEvent uid cid tid act t =
     \<lparr>userId = uid, classId = cid, taskId = tid, action = act, client_time = t\<rparr>"

text \<open>
  A run of completed pauses of one student on one task: for each pair \<open>(p, u)\<close> a
  \<^verbatim>\<open>paused\<close> event at \<open>p\<close> followed by an \<^verbatim>\<open>unpaused\<close> event at \<open>u\<close>; and the sum of
  their deltas as the script accumulates it, from the left onto \<open>acc\<close>, every delta and
  every partial sum a double.
\<close>

fun pauseEvents :: "int \<Rightarrow> int \<Rightarrow> string \<Rightarrow> (real \<times> real) list \<Rightarrow> event list" where
  "pauseEvents uid cid tid [] = []"
| "pauseEvents uid cid tid ((p, u) # pairs) =
     mkEvent uid cid tid ''paused'' p # mkEvent uid cid tid ''unpaused'' u
       # pauseEvents uid cid tid pairs"

fun pauseSum :: "real \<Rightarrow> (real \<times> real) list \<Rightarrow> real" where
  "pauseSum acc [] = acc"
| "pauseSum acc ((p, u) # pairs) = pauseSum (dblAdd acc (dblSub u p)) pairs"

text \<open>
  The ids in the order in which their totals were created while a stream is folded:
  after each event, the keys of the totals object that were not there before it.
\<close>

fun creationOrder ::
  "(event \<Rightarrow> activeSessions \<times> timeOnTask \<Rightarrow> activeSessions \<times> timeOnTask) \<Rightarrow>
   event list \<Rightarrow> activeSessions \<times> timeOnTask \<Rightarrow> int list" where
  "creationOrder step [] st = []"
| "creationOrder step (ev # evs) st =
     filter (\<lambda>k. map_of (snd st) k = None) (map fst (snd (step ev st)))
       @ creationOrder step evs (step ev st)"

text \<open>
  The property order of an object whose keys were created in the order \<open>ks\<close>: the array
  indices in ascending order, then the other keys as created.
\<close>

definition propertyOrder :: "int list \<Rightarrow> int list" where
  "propertyOrder ks = sort (filter isArrayIndex ks) @ filter (\<lambda>k. \<not> isArrayIndex k) ks"

text \<open>
  The clock string of the specification: hours modulo 24, minutes and seconds, each
  padded to two digits.
\<close>

definition clock24 :: "nat \<Rightarrow> string" where
  "clock24 n =
     padStart 2 (digitsOf ((n div 3600) mod 24)) @ '':'' @ padStart 2 (digitsOf ((n div 60) mod 60))
       @ '':'' @ padStart 2 (digitsOf (n mod 60))"


section \<open>The totals object\<close>

text \<open>
  Reading a property after it was assigned finds the assigned value, so the second
  statement of \<open>addToTotal\<close> always finds the number the first one left.
\<close>

lemma map_of_insertProp_at:
  "map_of ps k = None \<Longrightarrow>
   map_of (insertProp k v ps) x = (if x = k then Some v else map_of ps x)"
  by (induction ps) (auto split: if_splits)

lemma map_of_updateProp_at:
  "map_of (updateProp k v ps) x =
     (if x = k \<and> map_of ps k \<noteq> None then Some v else map_of ps x)"
  by (induction ps) (auto split: if_splits)

lemma map_of_setProp: "map_of (setProp k v ps) = (map_of ps)(k \<mapsto> v)"
  by (rule ext)
    (simp add: setProp_def map_of_insertProp_at map_of_updateProp_at split: option.splits)

lemma map_of_addToTotal:
  "map_of (addToTotal k d ps) = (map_of ps)(k \<mapsto> totalOf ps k + d)"
  by (auto simp: addToTotal_def Let_def map_of_setProp totalOf_def fun_eq_iff
      split: option.splits)

lemma addToTotal_defined: "map_of (addToTotal k d ps) k \<noteq> None"
  by (simp add: map_of_addToTotal)


subsection \<open>The keys of the totals object\<close>

text \<open>
  Updating a property keeps the list of keys; a new key that is not an array index goes
  to the end, a new array index goes to its place among the array indices.
\<close>

lemma insertProp_not_index: "\<not> isArrayIndex k \<Longrightarrow> insertProp k v ps = ps @ [(k, v)]"
  by (induction ps) auto

lemma keys_updateProp: "map fst (updateProp k v ps) = map fst ps"
  by (induction ps) auto

lemma keys_addToTotal:
  "map fst (addToTotal k d ps) =
     (if map_of ps k = None then map fst (insertProp k 0 ps) else map fst ps)"
  by (auto simp: addToTotal_def setProp_def Let_def keys_updateProp map_of_insertProp_at
      map_of_updateProp_at split: option.splits)

lemma keys_insertProp_index:
  assumes "isArrayIndex k"
  shows "map fst ps = is @ ns \<Longrightarrow> sorted is \<Longrightarrow> k \<notin> set is \<Longrightarrow>
     (\<And>i. i \<in> set is \<Longrightarrow> isArrayIndex i) \<Longrightarrow> (\<And>n. n \<in> set ns \<Longrightarrow> \<not> isArrayIndex n) \<Longrightarrow>
     map fst (insertProp k v ps) = insort k is @ ns"
proof (induction "is" arbitrary: ps)
  case Nil
  then show ?case using assms by (cases ps) auto
next
  case (Cons i is')
  then obtain vi r where ps: "ps = (i, vi) # r" and r: "map fst r = is' @ ns"
    by (cases ps) auto
  have idx: "isArrayIndex i" using Cons.prems(4) by simp
  show ?case
  proof (cases "k < i")
    case True
    then show ?thesis using assms idx ps r by simp
  next
    case False
    have "map fst (insertProp k v r) = insort k is' @ ns"
      using Cons.IH [OF r] Cons.prems by auto
    moreover have "k \<noteq> i" using Cons.prems(3) by auto
    ultimately show ?thesis using False assms idx ps by auto
  qed
qed

lemma set_propertyOrder: "set (propertyOrder ks) = set ks"
  by (auto simp: propertyOrder_def)

lemma distinct_propertyOrder: "distinct ks \<Longrightarrow> distinct (propertyOrder ks)"
  by (auto simp: propertyOrder_def)

lemma sort_snoc:
  assumes "distinct (xs @ [k])"
  shows "sort (xs @ [k]) = insort k (sort (xs :: int list))"
proof (rule sorted_distinct_set_unique)
  show "sorted (sort (xs @ [k]))" by simp
  show "distinct (sort (xs @ [k]))" using assms by simp
  show "sorted (insort k (sort xs))" by (simp add: sorted_insort)
  show "distinct (insort k (sort xs))" using assms by (simp add: distinct_insort)
  show "set (sort (xs @ [k])) = set (insort k (sort xs))" by (simp add: set_insort_key)
qed

lemma keys_insertProp_new:
  assumes "map fst ps = propertyOrder ks" and "distinct ks" and "k \<notin> set ks"
  shows "map fst (insertProp k v ps) = propertyOrder (ks @ [k])"
proof (cases "isArrayIndex k")
  case False
  then show ?thesis using assms by (simp add: insertProp_not_index propertyOrder_def)
next
  case True
  have "map fst (insertProp k v ps)
      = insort k (sort (filter isArrayIndex ks)) @ filter (\<lambda>k. \<not> isArrayIndex k) ks"
  proof (rule keys_insertProp_index [OF True])
    show "map fst ps = sort (filter isArrayIndex ks) @ filter (\<lambda>k. \<not> isArrayIndex k) ks"
      using assms(1) by (simp add: propertyOrder_def)
    show "sorted (sort (filter isArrayIndex ks))" by simp
    show "k \<notin> set (sort (filter isArrayIndex ks))" using assms(3) by simp
    show "\<And>i. i \<in> set (sort (filter isArrayIndex ks)) \<Longrightarrow> isArrayIndex i" by simp
    show "\<And>n. n \<in> set (filter (\<lambda>k. \<not> isArrayIndex k) ks) \<Longrightarrow> \<not> isArrayIndex n" by simp
  qed
  moreover have "sort (filter isArrayIndex ks @ [k]) = insort k (sort (filter isArrayIndex ks))"
    using assms(2,3) by (intro sort_snoc) simp
  ultimately show ?thesis using True by (simp add: propertyOrder_def)
qed

lemma filter_single:
  "distinct xs \<Longrightarrow> k \<in> set xs \<Longrightarrow> (\<And>x. x \<in> set xs \<Longrightarrow> P x \<longleftrightarrow> x = k) \<Longrightarrow> filter P xs = [k]"
proof (induction xs)
  case Nil
  then show ?case by simp
next
  case (Cons x xs)
  show ?case
  proof (cases "x = k")
    case True
    then have "filter P xs = []"
      using Cons.prems by (auto simp: filter_empty_conv)
    then show ?thesis using True Cons.prems by simp
  next
    case False
    then have "filter P xs = [k]"
      using Cons.IH Cons.prems by auto
    then show ?thesis using False Cons.prems by simp
  qed
qed

section \<open>The session key determines the entity and the task\<close>










lemma sessionKey_1t: "sessionKey 1 ''t'' = ''1-t''"
  by (simp add: sessionKey_def numberToString_def digitsOf.simps digitChar_def)

lemma sessionKey_2t: "sessionKey 2 ''t'' = ''2-t''"
  by (simp add: sessionKey_def numberToString_def digitsOf.simps digitChar_def)

lemma sessionKey_7t: "sessionKey 7 ''t'' = ''7-t''"
  by (simp add: sessionKey_def numberToString_def digitsOf.simps digitChar_def)

section \<open>Dispatch of one event\<close>

lemma perStudent_started:
  "action ev = ''started'' \<Longrightarrow>
   perStudent_processEvent ev (S, T) =
     (perStudent_startSession (sessionKey (userId ev) (taskId ev)) (client_time ev) S, T)"
  by (simp add: perStudent_processEvent_def Let_def)



lemma perStudent_finished:
  "action ev = ''finished'' \<Longrightarrow>
   perStudent_processEvent ev (S, T) =
     perStudent_finishSession (sessionKey (userId ev) (taskId ev)) (client_time ev) S T (userId ev)"
  by (simp add: perStudent_processEvent_def Let_def)


lemma combined_started:
  "action ev = ''started'' \<Longrightarrow>
   combined_processEvent ev idf (S, T) =
     (combined_startSession (sessionKey (eventField ev idf) (taskId ev)) (client_time ev) S, T)"
  by (simp add: combined_processEvent_def Let_def)

lemma combined_finished:
  "action ev = ''finished'' \<Longrightarrow>
   combined_processEvent ev idf (S, T) =
     combined_finishSession (sessionKey (eventField ev idf) (taskId ev)) (client_time ev) S T
       (eventField ev idf)"
  by (simp add: combined_processEvent_def Let_def)

lemma perClass_step_is_combined:
  "perClass_processEvent ev st = combined_processEvent ev ClassIdField st"
  by (cases st)
    (simp add: perClass_processEvent_def combined_processEvent_def Let_def
      perClass_startSession_def combined_startSession_def
      perClass_pauseSession_def combined_pauseSession_def
      perClass_unpauseSession_def combined_unpauseSession_def
      perClass_finishSession_def combined_finishSession_def)

section \<open>Totals never decrease\<close>





section \<open>A paused session has its pause start\<close>




lemma combined_step_paused_has_start:
  assumes "\<And>k s. fst st k = Some s \<Longrightarrow> isPaused s \<Longrightarrow> pauseStartTime s \<noteq> None"
    and "fst (combined_processEvent ev idf st) k = Some s" and "isPaused s"
  shows "pauseStartTime s \<noteq> None"
proof -
  obtain S T where st: "st = (S, T)" by (cases st)
  have inv: "\<And>k s. S k = Some s \<Longrightarrow> isPaused s \<Longrightarrow> pauseStartTime s \<noteq> None"
    using assms(1) by (simp add: st)
  show ?thesis
    using assms(2,3) inv
    by (auto simp: st combined_processEvent_def Let_def combined_startSession_def
        combined_pauseSession_def combined_unpauseSession_def combined_finishSession_def
        split: option.splits if_splits)
qed

lemma combined_fold_paused_has_start:
  assumes "\<And>k s. fst st k = Some s \<Longrightarrow> isPaused s \<Longrightarrow> pauseStartTime s \<noteq> None"
    and "fst (fold (\<lambda>ev. combined_processEvent ev idf) evs st) k = Some s" and "isPaused s"
  shows "pauseStartTime s \<noteq> None"
  using assms
proof (induction evs arbitrary: st)
  case Nil
  then show ?case by simp
next
  case (Cons ev evs)
  have "\<And>k s. fst (combined_processEvent ev idf st) k = Some s \<Longrightarrow> isPaused s
      \<Longrightarrow> pauseStartTime s \<noteq> None"
    using combined_step_paused_has_start [of st ev idf] Cons.prems(1) by blast
  then show ?case
    using Cons.IH [of "combined_processEvent ev idf st"] Cons.prems(2,3) by simp
qed

lemma combined_paused_has_start:
  assumes "fst (fold (\<lambda>ev. combined_processEvent ev idf) evs (Map.empty, [])) k = Some s"
    and "isPaused s"
  shows "pauseStartTime s \<noteq> None"
  using combined_fold_paused_has_start [of "(Map.empty, [])" idf evs k s] assms by simp

lemma perClass_paused_has_start:
  assumes "fst (fold perClass_processEvent evs (Map.empty, [])) k = Some s" and "isPaused s"
  shows "pauseStartTime s \<noteq> None"
proof -
  have "perClass_processEvent = (\<lambda>ev. combined_processEvent ev ClassIdField)"
    by (intro ext) (rule perClass_step_is_combined)
  then show ?thesis
    using combined_paused_has_start [of ClassIdField evs k s] assms by simp
qed

section \<open>Rounding to a double\<close>

text \<open>
  The exponent found by \<open>binaryExponent\<close> brackets the number; rounding keeps the sign,
  never crosses an integer that is a multiple of the quantum, takes a positive number
  to at least the power of two below it, and so never takes a number from 3600 upwards
  below 3600 nor a positive difference to zero.
\<close>

lemma twoTo_powr: "twoTo e = 2 powr (real_of_int e)"
  by (auto simp: twoTo_def powr_realpow [symmetric] powr_minus divide_inverse)

lemma twoTo_pos: "0 < twoTo e"
  by (simp add: twoTo_powr)

lemma twoTo_add: "twoTo (a + b) = twoTo a * twoTo b"
  by (simp add: twoTo_powr powr_add)

lemma twoTo_mono: "a \<le> b \<Longrightarrow> twoTo a \<le> twoTo b"
  by (simp add: twoTo_powr)

lemma twoTo_less_iff: "twoTo a < twoTo b \<longleftrightarrow> a < b"
  by (simp add: twoTo_powr)

lemma roundHalfEven_ge: "of_int k \<le> y \<Longrightarrow> k \<le> roundHalfEven y"
proof -
  assume "of_int k \<le> y"
  then have "k \<le> \<lfloor>y\<rfloor>" by (simp add: le_floor_iff)
  then show ?thesis by (auto simp: roundHalfEven_def Let_def)
qed

lemma roundHalfEven_le: "y \<le> of_int k \<Longrightarrow> roundHalfEven y \<le> k"
proof -
  assume a: "y \<le> of_int k"
  show ?thesis
  proof (cases "y = of_int k")
    case True
    then show ?thesis by (simp add: roundHalfEven_def)
  next
    case False
    then have "y < of_int k" using a by simp
    then have "\<lfloor>y\<rfloor> < k" by (simp add: floor_less_iff)
    then show ?thesis by (auto simp: roundHalfEven_def Let_def)
  qed
qed

lemma roundHalfEven_of_int: "roundHalfEven (of_int k) = k"
  by (simp add: roundHalfEven_def)

lemma binaryExponent_bounds:
  assumes "x \<noteq> 0"
  shows "twoTo (binaryExponent x) \<le> \<bar>x\<bar> \<and> \<bar>x\<bar> < twoTo (binaryExponent x + 1)"
proof (cases "1 \<le> \<bar>x\<bar>")
  case True
  let ?n = "\<lfloor>\<bar>x\<bar>\<rfloor>"
  have n: "0 < ?n" using True by simp
  have e: "binaryExponent x = bitlen ?n - 1" using True by (simp add: binaryExponent_def)
  have b1: "1 \<le> bitlen ?n" using n bitlen_eq_zero_iff [of ?n] bitlen_nonneg [of ?n] by linarith
  have lo: "(2::int) ^ nat (bitlen ?n - 1) \<le> ?n" and hi: "?n < 2 ^ nat (bitlen ?n)"
    using bitlen_bounds [OF n] by simp_all
  have "real_of_int (2 ^ nat (bitlen ?n - 1)) \<le> real_of_int ?n"
    using lo by (simp only: of_int_le_iff)
  also have "\<dots> \<le> \<bar>x\<bar>" by simp
  finally have 1: "twoTo (binaryExponent x) \<le> \<bar>x\<bar>"
    using b1 by (simp add: e twoTo_def)
  have "?n + 1 \<le> 2 ^ nat (bitlen ?n)" using hi by simp
  then have up: "real_of_int (?n + 1) \<le> real_of_int (2 ^ nat (bitlen ?n))"
    by (simp only: of_int_le_iff)
  have "\<bar>x\<bar> < real_of_int (?n + 1)" by simp
  then have "\<bar>x\<bar> < real_of_int (2 ^ nat (bitlen ?n))" using up by (rule less_le_trans)
  then have 2: "\<bar>x\<bar> < twoTo (binaryExponent x + 1)"
    using b1 by (simp add: e twoTo_def)
  show ?thesis using 1 2 by blast
next
  case False
  define q where "q = 1 / \<bar>x\<bar>"
  have xpos: "0 < \<bar>x\<bar>" using assms by simp
  have q1: "1 < q" using False xpos by (simp add: q_def)
  let ?m = "\<lfloor>q\<rfloor>"
  define b where "b = bitlen ?m - 1"
  have m: "0 < ?m" using q1 by simp
  have b0: "0 \<le> b" using m bitlen_eq_zero_iff [of ?m] bitlen_nonneg [of ?m] unfolding b_def by linarith
  have lo: "(2::int) ^ nat b \<le> ?m" and hi: "?m < 2 ^ nat (b + 1)"
    using bitlen_bounds [OF m] by (simp_all add: b_def)
  have "real_of_int (2 ^ nat b) \<le> real_of_int ?m" using lo by (simp only: of_int_le_iff)
  also have "\<dots> \<le> q" by simp
  finally have qlo: "twoTo b \<le> q" using b0 by (simp add: twoTo_def)
  have "?m + 1 \<le> 2 ^ nat (b + 1)" using hi by simp
  then have up: "real_of_int (?m + 1) \<le> real_of_int (2 ^ nat (b + 1))"
    by (simp only: of_int_le_iff)
  have "q < real_of_int (?m + 1)" by simp
  then have "q < real_of_int (2 ^ nat (b + 1))" using up by (rule less_le_trans)
  then have qhi: "q < twoTo (b + 1)" using b0 by (simp add: twoTo_def)
  have inv: "twoTo (- e) = 1 / twoTo e" for e
    by (simp add: twoTo_powr powr_minus divide_inverse)
  have xhi: "\<bar>x\<bar> \<le> twoTo (- b)"
  proof -
    have "\<bar>x\<bar> * twoTo b \<le> \<bar>x\<bar> * q" using qlo xpos by simp
    also have "\<dots> = 1" using xpos by (simp add: q_def)
    finally show ?thesis using twoTo_pos [of b] by (simp add: inv field_simps)
  qed
  have xlo: "twoTo (- b - 1) < \<bar>x\<bar>"
  proof -
    have "1 = \<bar>x\<bar> * q" using xpos by (simp add: q_def)
    also have "\<dots> < \<bar>x\<bar> * twoTo (b + 1)" using qhi xpos by simp
    finally have "1 < \<bar>x\<bar> * twoTo (b + 1)" .
    then have "1 / twoTo (b + 1) < \<bar>x\<bar>"
      using twoTo_pos [of "b + 1"] by (simp add: pos_divide_less_eq)
    moreover have "twoTo (- b - 1) = 1 / twoTo (b + 1)" using inv [of "b + 1"] by simp
    ultimately show ?thesis by (simp only:)
  qed
  show ?thesis
  proof (cases "\<bar>x\<bar> * twoTo b = 1")
    case True
    then have e: "binaryExponent x = - b" using False by (simp add: binaryExponent_def q_def b_def)
    have "\<bar>x\<bar> = twoTo (- b)" using True twoTo_pos [of b] by (simp add: inv field_simps)
    then show ?thesis using twoTo_less_iff [of "- b" "- b + 1"] by (simp add: e)
  next
    case neq: False
    then have e: "binaryExponent x = - b - 1"
      using False by (simp add: binaryExponent_def q_def b_def Let_def)
    have "\<bar>x\<bar> \<noteq> twoTo (- b)" using neq twoTo_pos [of b] by (simp add: inv field_simps)
    then have "\<bar>x\<bar> < twoTo (- b)" using xhi by simp
    then show ?thesis using xlo by (simp add: e)
  qed
qed

lemma toDouble_lower:
  assumes "0 < x"
  shows "twoTo (binaryExponent x) \<le> toDouble x"
proof -
  let ?e = "binaryExponent x"
  let ?u = "twoTo (?e - 52)"
  have x: "x \<noteq> 0" using assms by simp
  have up: "0 < ?u" by (rule twoTo_pos)
  have split: "twoTo ?e = twoTo 52 * ?u"
    using twoTo_add [of 52 "?e - 52"] by simp
  have "twoTo ?e \<le> x"
    using binaryExponent_bounds [OF x] assms by simp
  then have "twoTo 52 \<le> x / ?u"
    using up by (simp add: split pos_le_divide_eq)
  moreover have t52: "twoTo 52 = real_of_int (2 ^ 52)"
    by (simp add: twoTo_def)
  ultimately have "real_of_int (2 ^ 52) \<le> x / ?u" by (simp only:)
  then have "2 ^ 52 \<le> roundHalfEven (x / ?u)" by (rule roundHalfEven_ge)
  then have "real_of_int (2 ^ 52) \<le> real_of_int (roundHalfEven (x / ?u))"
    by (simp only: of_int_le_iff)
  then have "real_of_int (2 ^ 52) * ?u \<le> real_of_int (roundHalfEven (x / ?u)) * ?u"
    using up by (simp only: mult_le_cancel_right_pos)
  moreover have "real_of_int (2 ^ 52) * ?u = twoTo ?e"
    by (simp only: t52 [symmetric] split)
  ultimately show ?thesis
    using x by (simp add: toDouble_def Let_def)
qed

lemma toDouble_pos: "0 < x \<Longrightarrow> 0 < toDouble x"
  using toDouble_lower [of x] twoTo_pos [of "binaryExponent x"] by linarith

lemma toDouble_nonpos: "x \<le> 0 \<Longrightarrow> toDouble x \<le> 0"
proof -
  assume a: "x \<le> 0"
  let ?u = "twoTo (binaryExponent x - 52)"
  have up: "0 < ?u" by (rule twoTo_pos)
  have "x / ?u \<le> real_of_int 0" using a up by (simp add: divide_nonpos_pos)
  then have "roundHalfEven (x / ?u) \<le> 0" by (rule roundHalfEven_le)
  then have "real_of_int (roundHalfEven (x / ?u)) * ?u \<le> 0"
    using up by (simp add: mult_le_0_iff)
  then show ?thesis by (simp add: toDouble_def Let_def)
qed

lemma toDouble_nonneg: "0 \<le> x \<Longrightarrow> 0 \<le> toDouble x"
  using toDouble_pos [of x] by (cases "x = 0") (simp_all add: toDouble_def)

lemma toDouble_ge_3600:
  assumes "3600 \<le> x"
  shows "3600 \<le> toDouble x"
proof -
  let ?e = "binaryExponent x"
  have x: "x \<noteq> 0" and xp: "0 < x" using assms by simp_all
  have b: "twoTo ?e \<le> x \<and> x < twoTo (?e + 1)"
    using binaryExponent_bounds [OF x] xp by simp
  have "twoTo 11 < twoTo (?e + 1)"
    using b assms by (simp add: twoTo_def)
  then have e: "11 \<le> ?e" by (simp add: twoTo_less_iff)
  show ?thesis
  proof (cases "?e = 11")
    case False
    then have "12 \<le> ?e" using e by simp
    then have "twoTo 12 \<le> twoTo ?e" by (rule twoTo_mono)
    then have "4096 \<le> toDouble x"
      using toDouble_lower [OF xp] by (simp add: twoTo_def)
    then show ?thesis by simp
  next
    case True
    let ?u = "twoTo (- 41)"
    have up: "0 < ?u" by (rule twoTo_pos)
    have u: "?u = 1 / 2 ^ 41" by (simp add: twoTo_def)
    have td: "toDouble x = real_of_int (roundHalfEven (x / ?u)) * ?u"
      using x True by (simp add: toDouble_def Let_def)
    have "real_of_int (3600 * 2 ^ 41) \<le> x / ?u"
      using assms by (simp add: u)
    then have "3600 * 2 ^ 41 \<le> roundHalfEven (x / ?u)" by (rule roundHalfEven_ge)
    then have "real_of_int (3600 * 2 ^ 41) \<le> real_of_int (roundHalfEven (x / ?u))"
      by (simp only: of_int_le_iff)
    then have "real_of_int (3600 * 2 ^ 41) * ?u \<le> real_of_int (roundHalfEven (x / ?u)) * ?u"
      using up by (simp only: mult_le_cancel_right_pos)
    moreover have "real_of_int (3600 * 2 ^ 41) * ?u = 3600" by (simp add: u)
    ultimately show ?thesis by (simp only: td)
  qed
qed

section \<open>The scripts in double arithmetic\<close>

lemma map_of_addToTotal_dbl:
  "map_of (addToTotal_dbl k d ps) = (map_of ps)(k \<mapsto> dblAdd (totalOf ps k) d)"
  by (auto simp: addToTotal_dbl_def Let_def map_of_setProp totalOf_def fun_eq_iff
      split: option.splits)

lemma totalOf_addToTotal_dbl:
  "totalOf (addToTotal_dbl k d ps) j = (if j = k then dblAdd (totalOf ps k) d else totalOf ps j)"
  by (simp add: totalOf_def map_of_addToTotal_dbl)

lemma dblSub_nonzero: "b < a \<Longrightarrow> dblSub a b \<noteq> 0"
  using toDouble_pos [of "a - b"] by (simp add: dblSub_def)

lemma dblSub_cap: "3600 \<le> a - b \<Longrightarrow> \<not> dblSub a b < 3600"
  using toDouble_ge_3600 [of "a - b"] by (simp add: dblSub_def)

lemma perStudent_started_dbl:
  "action ev = ''started'' \<Longrightarrow>
   perStudent_processEvent_dbl ev (S, T) =
     (perStudent_startSession (sessionKey (userId ev) (taskId ev)) (client_time ev) S, T)"
  by (simp add: perStudent_processEvent_dbl_def Let_def)

lemma perStudent_paused_dbl:
  "action ev = ''paused'' \<Longrightarrow>
   perStudent_processEvent_dbl ev (S, T) =
     (perStudent_pauseSession (sessionKey (userId ev) (taskId ev)) (client_time ev) S, T)"
  by (simp add: perStudent_processEvent_dbl_def Let_def)

lemma perStudent_unpaused_dbl:
  "action ev = ''unpaused'' \<Longrightarrow>
   perStudent_processEvent_dbl ev (S, T) =
     (perStudent_unpauseSession_dbl (sessionKey (userId ev) (taskId ev)) (client_time ev) S, T)"
  by (simp add: perStudent_processEvent_dbl_def Let_def)

lemma perStudent_finished_dbl:
  "action ev = ''finished'' \<Longrightarrow>
   perStudent_processEvent_dbl ev (S, T) =
     perStudent_finishSession_dbl (sessionKey (userId ev) (taskId ev)) (client_time ev) S T
       (userId ev)"
  by (simp add: perStudent_processEvent_dbl_def Let_def)

lemma combined_started_dbl:
  "action ev = ''started'' \<Longrightarrow>
   combined_processEvent_dbl ev idf (S, T) =
     (combined_startSession (sessionKey (eventField ev idf) (taskId ev)) (client_time ev) S, T)"
  by (simp add: combined_processEvent_dbl_def Let_def)

lemma combined_finished_dbl:
  "action ev = ''finished'' \<Longrightarrow>
   combined_processEvent_dbl ev idf (S, T) =
     combined_finishSession_dbl (sessionKey (eventField ev idf) (taskId ev)) (client_time ev) S T
       (eventField ev idf)"
  by (simp add: combined_processEvent_dbl_def Let_def)

lemma perStudent_finish_open_dbl:
  assumes "S key = Some s"
  shows "perStudent_finishSession_dbl key c S T uid =
     (S(key := None),
      if startTime s < c
      then addToTotal_dbl uid (max 0 (dblSub (dblSub c (startTime s)) (pausedTime s))) T
      else T)"
  using assms dblSub_nonzero [of "startTime s" c]
  by (simp add: perStudent_finishSession_dbl_def Let_def)

lemma combined_finish_open_dbl:
  assumes "S key = Some s"
  shows "combined_finishSession_dbl key c S T ident =
     (S(key := None),
      if startTime s < c \<and> dblSub c (startTime s) < 3600
      then addToTotal_dbl ident (max 0 (dblSub (dblSub c (startTime s)) (pausedTime s))) T
      else T)"
  using assms by (simp add: combined_finishSession_dbl_def Let_def)

text \<open>
  The pause start is there whenever \<^verbatim>\<open>isPaused\<close> is set, in double arithmetic as well.
\<close>

lemma perStudent_step_paused_has_start_dbl:
  assumes "\<And>k s. fst st k = Some s \<Longrightarrow> isPaused s \<Longrightarrow> pauseStartTime s \<noteq> None"
    and "fst (perStudent_processEvent_dbl ev st) k = Some s" and "isPaused s"
  shows "pauseStartTime s \<noteq> None"
proof -
  obtain S T where st: "st = (S, T)" by (cases st)
  have inv: "\<And>k s. S k = Some s \<Longrightarrow> isPaused s \<Longrightarrow> pauseStartTime s \<noteq> None"
    using assms(1) by (simp add: st)
  show ?thesis
    using assms(2,3) inv
    by (auto simp: st perStudent_processEvent_dbl_def Let_def perStudent_startSession_def
        perStudent_pauseSession_def perStudent_unpauseSession_dbl_def perStudent_finishSession_dbl_def
        split: option.splits if_splits)
qed

lemma perStudent_fold_paused_has_start_dbl:
  assumes "\<And>k s. fst st k = Some s \<Longrightarrow> isPaused s \<Longrightarrow> pauseStartTime s \<noteq> None"
    and "fst (fold perStudent_processEvent_dbl evs st) k = Some s" and "isPaused s"
  shows "pauseStartTime s \<noteq> None"
  using assms
proof (induction evs arbitrary: st)
  case Nil
  then show ?case by simp
next
  case (Cons ev evs)
  have "\<And>k s. fst (perStudent_processEvent_dbl ev st) k = Some s \<Longrightarrow> isPaused s
      \<Longrightarrow> pauseStartTime s \<noteq> None"
    using perStudent_step_paused_has_start_dbl [of st ev] Cons.prems(1) by blast
  then show ?case
    using Cons.IH [of "perStudent_processEvent_dbl ev st"] Cons.prems(2,3) by simp
qed

lemma perStudent_paused_has_start_dbl:
  assumes "fst (fold perStudent_processEvent_dbl evs (Map.empty, [])) k = Some s" and "isPaused s"
  shows "pauseStartTime s \<noteq> None"
  using perStudent_fold_paused_has_start_dbl [of "(Map.empty, [])" evs k s] assms by simp

lemma combined_step_paused_has_start_dbl:
  assumes "\<And>k s. fst st k = Some s \<Longrightarrow> isPaused s \<Longrightarrow> pauseStartTime s \<noteq> None"
    and "fst (combined_processEvent_dbl ev idf st) k = Some s" and "isPaused s"
  shows "pauseStartTime s \<noteq> None"
proof -
  obtain S T where st: "st = (S, T)" by (cases st)
  have inv: "\<And>k s. S k = Some s \<Longrightarrow> isPaused s \<Longrightarrow> pauseStartTime s \<noteq> None"
    using assms(1) by (simp add: st)
  show ?thesis
    using assms(2,3) inv
    by (auto simp: st combined_processEvent_dbl_def Let_def combined_startSession_def
        combined_pauseSession_def combined_unpauseSession_dbl_def combined_finishSession_dbl_def
        split: option.splits if_splits)
qed

lemma combined_fold_paused_has_start_dbl:
  assumes "\<And>k s. fst st k = Some s \<Longrightarrow> isPaused s \<Longrightarrow> pauseStartTime s \<noteq> None"
    and "fst (fold (\<lambda>ev. combined_processEvent_dbl ev idf) evs st) k = Some s" and "isPaused s"
  shows "pauseStartTime s \<noteq> None"
  using assms
proof (induction evs arbitrary: st)
  case Nil
  then show ?case by simp
next
  case (Cons ev evs)
  have "\<And>k s. fst (combined_processEvent_dbl ev idf st) k = Some s \<Longrightarrow> isPaused s
      \<Longrightarrow> pauseStartTime s \<noteq> None"
    using combined_step_paused_has_start_dbl [of st ev idf] Cons.prems(1) by blast
  then show ?case
    using Cons.IH [of "combined_processEvent_dbl ev idf st"] Cons.prems(2,3) by simp
qed

lemma combined_paused_has_start_dbl:
  assumes "fst (fold (\<lambda>ev. combined_processEvent_dbl ev idf) evs (Map.empty, [])) k = Some s"
    and "isPaused s"
  shows "pauseStartTime s \<noteq> None"
  using combined_fold_paused_has_start_dbl [of "(Map.empty, [])" idf evs k s] assms by simp

text \<open>
  The operations of the examples, evaluated: the first two groups are exact, the third
  rounds (the times 1.9 and 3.9 are the doubles nearest to them, and the result is the
  double printed as 2.9999999999999996), and in the last the difference of the doubles
  nearest to 3600.1 and 0.1 rounds up to 3600.
\<close>

lemma dbl_scenario_15:
  "dblSub 15 10 = 5" "dblAdd 0 5 = 5" "dblSub 20 0 = 20" "dblSub 20 5 = 15" "dblAdd 0 15 = 15"
  by code_simp+

lemma dbl_scenario_4000:
  "dblSub 4000 0 = 4000" "dblAdd 0 4000 = 4000"
  by code_simp+

lemma dbl_scenario_rounded:
  "dblSub 5 (8782019273372467 / 2251799813685248) = 2476979795053773 / 2251799813685248"
  "dblAdd 0 (2476979795053773 / 2251799813685248) = 2476979795053773 / 2251799813685248"
  "dblSub 6 (4278419646001971 / 2251799813685248) = 2308094809027379 / 562949953421312"
  "dblSub (2308094809027379 / 562949953421312) (2476979795053773 / 2251799813685248)
     = 6755399441055743 / 2251799813685248"
  "dblAdd 0 (6755399441055743 / 2251799813685248) = 6755399441055743 / 2251799813685248"
  by code_simp+

lemma dbl_scenario_cap:
  "dblSub (7916703622312755 / 2199023255552) (3602879701896397 / 36028797018963968) = 3600"
  by code_simp

lemma pauseSum_from_the_left:
  "pauseSum 0 [(0, 3602879701896397 / 36028797018963968),
               (0, 3602879701896397 / 18014398509481984),
               (0, 5404319552844595 / 18014398509481984)]
     = 1351079888211149 / 2251799813685248"
  by code_simp

section \<open>A session with completed pauses\<close>

text \<open>
  From a started session that is not paused, each pair of a \<^verbatim>\<open>paused\<close> and an
  \<^verbatim>\<open>unpaused\<close> event adds its rounded delta to \<^verbatim>\<open>pausedTime\<close> by a rounded addition and
  leaves the session active.
\<close>

lemma perStudent_pause_pairs_dbl:
  "\<exists>q'. fold perStudent_processEvent_dbl (pauseEvents uid cid tid pairs)
      (S(sessionKey uid tid \<mapsto>
          \<lparr>startTime = a, pausedTime = b, isPaused = False, pauseStartTime = q\<rparr>), T)
    = (S(sessionKey uid tid \<mapsto>
          \<lparr>startTime = a, pausedTime = pauseSum b pairs, isPaused = False,
           pauseStartTime = q'\<rparr>), T)"
proof (induction pairs arbitrary: b q)
  case Nil
  show ?case by (intro exI [of _ q]) simp
next
  case (Cons pu pairs)
  obtain p u where pu: "pu = (p, u)" by (cases pu)
  have step: "perStudent_processEvent_dbl (mkEvent uid cid tid ''unpaused'' u)
      (perStudent_processEvent_dbl (mkEvent uid cid tid ''paused'' p)
        (S(sessionKey uid tid \<mapsto>
          \<lparr>startTime = a, pausedTime = b, isPaused = False, pauseStartTime = q\<rparr>), T))
    = (S(sessionKey uid tid \<mapsto>
          \<lparr>startTime = a, pausedTime = dblAdd b (dblSub u p), isPaused = False,
           pauseStartTime = Some p\<rparr>), T)"
    by (simp add: perStudent_processEvent_dbl_def Let_def mkEvent_def
        perStudent_pauseSession_def perStudent_unpauseSession_dbl_def)
  obtain q' where "fold perStudent_processEvent_dbl (pauseEvents uid cid tid pairs)
      (S(sessionKey uid tid \<mapsto>
          \<lparr>startTime = a, pausedTime = dblAdd b (dblSub u p), isPaused = False,
           pauseStartTime = Some p\<rparr>), T)
    = (S(sessionKey uid tid \<mapsto>
          \<lparr>startTime = a, pausedTime = pauseSum (dblAdd b (dblSub u p)) pairs,
           isPaused = False, pauseStartTime = q'\<rparr>), T)"
    using Cons.IH [of "dblAdd b (dblSub u p)" "Some p"] by blast
  then have "fold perStudent_processEvent_dbl (pauseEvents uid cid tid (pu # pairs))
      (S(sessionKey uid tid \<mapsto>
          \<lparr>startTime = a, pausedTime = b, isPaused = False, pauseStartTime = q\<rparr>), T)
    = (S(sessionKey uid tid \<mapsto>
          \<lparr>startTime = a, pausedTime = pauseSum b (pu # pairs), isPaused = False,
           pauseStartTime = q'\<rparr>), T)"
    by (simp add: pu step)
  then show ?case by (rule exI)
qed

lemma perStudent_whole_session_dbl:
  assumes "S (sessionKey uid tid) = None"
  shows "fold perStudent_processEvent_dbl
           (mkEvent uid cid tid ''started'' t0 # pauseEvents uid cid tid pairs
              @ [mkEvent uid cid tid ''finished'' t1]) (S, T)
         = (S, if t0 < t1
               then addToTotal_dbl uid (max 0 (dblSub (dblSub t1 t0) (pauseSum 0 pairs))) T
               else T)"
proof -
  have start: "perStudent_processEvent_dbl (mkEvent uid cid tid ''started'' t0) (S, T)
      = (S(sessionKey uid tid \<mapsto>
          \<lparr>startTime = t0, pausedTime = 0, isPaused = False, pauseStartTime = None\<rparr>), T)"
    using assms by (simp add: perStudent_started_dbl mkEvent_def perStudent_startSession_def)
  obtain q' where mid: "fold perStudent_processEvent_dbl (pauseEvents uid cid tid pairs)
      (S(sessionKey uid tid \<mapsto>
          \<lparr>startTime = t0, pausedTime = 0, isPaused = False, pauseStartTime = None\<rparr>), T)
    = (S(sessionKey uid tid \<mapsto>
          \<lparr>startTime = t0, pausedTime = pauseSum 0 pairs, isPaused = False,
           pauseStartTime = q'\<rparr>), T)"
    using perStudent_pause_pairs_dbl [of uid cid tid pairs S t0 0 None T] by blast
  have closed: "S(sessionKey uid tid := None) = S"
    using assms by (auto simp: fun_eq_iff)
  have "perStudent_processEvent_dbl (mkEvent uid cid tid ''finished'' t1)
      (S(sessionKey uid tid \<mapsto>
          \<lparr>startTime = t0, pausedTime = pauseSum 0 pairs, isPaused = False,
           pauseStartTime = q'\<rparr>), T)
    = perStudent_finishSession_dbl (sessionKey uid tid) t1
        (S(sessionKey uid tid \<mapsto>
          \<lparr>startTime = t0, pausedTime = pauseSum 0 pairs, isPaused = False,
           pauseStartTime = q'\<rparr>)) T uid"
    by (simp add: perStudent_finished_dbl mkEvent_def)
  also have "\<dots>
    = (S, if t0 < t1
          then addToTotal_dbl uid (max 0 (dblSub (dblSub t1 t0) (pauseSum 0 pairs))) T
          else T)"
    using perStudent_finish_open_dbl [of
        "S(sessionKey uid tid \<mapsto>
          \<lparr>startTime = t0, pausedTime = pauseSum 0 pairs, isPaused = False,
           pauseStartTime = q'\<rparr>)" "sessionKey uid tid"
        "\<lparr>startTime = t0, pausedTime = pauseSum 0 pairs, isPaused = False,
           pauseStartTime = q'\<rparr>" t1 T uid]
    by (simp add: closed)
  finally have fin: "perStudent_processEvent_dbl (mkEvent uid cid tid ''finished'' t1)
      (S(sessionKey uid tid \<mapsto>
          \<lparr>startTime = t0, pausedTime = pauseSum 0 pairs, isPaused = False,
           pauseStartTime = q'\<rparr>), T)
    = (S, if t0 < t1
          then addToTotal_dbl uid (max 0 (dblSub (dblSub t1 t0) (pauseSum 0 pairs))) T
          else T)" .
  show ?thesis
    by (simp add: start mid fin)
qed

lemma perStudent_whole_session_open_pause_dbl:
  assumes "S (sessionKey uid tid) = None"
  shows "fold perStudent_processEvent_dbl
           (mkEvent uid cid tid ''started'' t0 # pauseEvents uid cid tid pairs
              @ [mkEvent uid cid tid ''paused'' p, mkEvent uid cid tid ''finished'' t1]) (S, T)
         = (S, if t0 < t1
               then addToTotal_dbl uid (max 0 (dblSub (dblSub t1 t0) (pauseSum 0 pairs))) T
               else T)"
proof -
  have start: "perStudent_processEvent_dbl (mkEvent uid cid tid ''started'' t0) (S, T)
      = (S(sessionKey uid tid \<mapsto>
          \<lparr>startTime = t0, pausedTime = 0, isPaused = False, pauseStartTime = None\<rparr>), T)"
    using assms by (simp add: perStudent_started_dbl mkEvent_def perStudent_startSession_def)
  obtain q' where mid: "fold perStudent_processEvent_dbl (pauseEvents uid cid tid pairs)
      (S(sessionKey uid tid \<mapsto>
          \<lparr>startTime = t0, pausedTime = 0, isPaused = False, pauseStartTime = None\<rparr>), T)
    = (S(sessionKey uid tid \<mapsto>
          \<lparr>startTime = t0, pausedTime = pauseSum 0 pairs, isPaused = False,
           pauseStartTime = q'\<rparr>), T)"
    using perStudent_pause_pairs_dbl [of uid cid tid pairs S t0 0 None T] by blast
  have pause: "perStudent_processEvent_dbl (mkEvent uid cid tid ''paused'' p)
      (S(sessionKey uid tid \<mapsto>
          \<lparr>startTime = t0, pausedTime = pauseSum 0 pairs, isPaused = False,
           pauseStartTime = q'\<rparr>), T)
    = (S(sessionKey uid tid \<mapsto>
          \<lparr>startTime = t0, pausedTime = pauseSum 0 pairs, isPaused = True,
           pauseStartTime = Some p\<rparr>), T)"
    by (simp add: perStudent_paused_dbl mkEvent_def perStudent_pauseSession_def)
  have closed: "S(sessionKey uid tid := None) = S"
    using assms by (auto simp: fun_eq_iff)
  have "perStudent_processEvent_dbl (mkEvent uid cid tid ''finished'' t1)
      (S(sessionKey uid tid \<mapsto>
          \<lparr>startTime = t0, pausedTime = pauseSum 0 pairs, isPaused = True,
           pauseStartTime = Some p\<rparr>), T)
    = perStudent_finishSession_dbl (sessionKey uid tid) t1
        (S(sessionKey uid tid \<mapsto>
          \<lparr>startTime = t0, pausedTime = pauseSum 0 pairs, isPaused = True,
           pauseStartTime = Some p\<rparr>)) T uid"
    by (simp add: perStudent_finished_dbl mkEvent_def)
  also have "\<dots>
    = (S, if t0 < t1
          then addToTotal_dbl uid (max 0 (dblSub (dblSub t1 t0) (pauseSum 0 pairs))) T
          else T)"
    using perStudent_finish_open_dbl [of
        "S(sessionKey uid tid \<mapsto>
          \<lparr>startTime = t0, pausedTime = pauseSum 0 pairs, isPaused = True,
           pauseStartTime = Some p\<rparr>)" "sessionKey uid tid"
        "\<lparr>startTime = t0, pausedTime = pauseSum 0 pairs, isPaused = True,
           pauseStartTime = Some p\<rparr>" t1 T uid]
    by (simp add: closed)
  finally have fin: "perStudent_processEvent_dbl (mkEvent uid cid tid ''finished'' t1)
      (S(sessionKey uid tid \<mapsto>
          \<lparr>startTime = t0, pausedTime = pauseSum 0 pairs, isPaused = True,
           pauseStartTime = Some p\<rparr>), T)
    = (S, if t0 < t1
          then addToTotal_dbl uid (max 0 (dblSub (dblSub t1 t0) (pauseSum 0 pairs))) T
          else T)" .
  show ?thesis
    by (simp add: start mid pause fin)
qed

section \<open>The order of the keys along a stream\<close>

text \<open>
  Every event either leaves the totals object alone or runs the two statements of
  \<open>addToTotal\<close> on it; along any such sequence of steps the keys are the property
  order of the keys in the order of their creation.
\<close>

lemma creationOrder_fold:
  assumes step: "\<And>ev st. snd (step ev st) = snd st
                    \<or> (\<exists>k d. snd (step ev st) = addToTotal k d (snd st))"
  shows "map fst (snd st) = propertyOrder ks \<Longrightarrow> distinct ks \<Longrightarrow>
     map fst (snd (fold step evs st)) = propertyOrder (ks @ creationOrder step evs st)
     \<and> distinct (ks @ creationOrder step evs st)"
proof (induction evs arbitrary: st ks)
  case Nil
  then show ?case by simp
next
  case (Cons ev evs)
  let ?T = "snd st" and ?T' = "snd (step ev st)"
  let ?new = "filter (\<lambda>k. map_of ?T k = None) (map fst ?T')"
  have keys: "set (map fst ?T) = set ks"
    using Cons.prems(1) by (simp add: set_propertyOrder)
  have old: "\<And>k. k \<in> set ks \<Longrightarrow> map_of ?T k \<noteq> None"
    using keys by (metis map_of_eq_None_iff set_map)
  have unchanged: "map fst ?T' = map fst ?T \<Longrightarrow>
      map fst ?T' = propertyOrder (ks @ ?new) \<and> distinct (ks @ ?new)"
  proof -
    assume same: "map fst ?T' = map fst ?T"
    have "?new = []"
      using same keys old by (auto simp: filter_empty_conv)
    then show ?thesis using same Cons.prems by simp
  qed
  have inv: "map fst ?T' = propertyOrder (ks @ ?new) \<and> distinct (ks @ ?new)"
  proof -
    consider (same) "?T' = ?T" | (add) k d where "?T' = addToTotal k d ?T"
      using step [of ev st] by blast
    then show ?thesis
    proof cases
      case same
      then show ?thesis using unchanged by simp
    next
      case add
      show ?thesis
      proof (cases "map_of ?T k = None")
        case False
        then have "map fst ?T' = map fst ?T" using add by (auto simp add: keys_addToTotal)
        then show ?thesis by (rule unchanged)
      next
        case True
        then have knew: "k \<notin> set ks" using old by blast
        have eq: "map fst ?T' = propertyOrder (ks @ [k])"
          using add True keys_insertProp_new [OF Cons.prems(1) Cons.prems(2) knew]
          by (simp add: keys_addToTotal)
        have "filter (\<lambda>j. map_of ?T j = None) (propertyOrder (ks @ [k])) = [k]"
        proof (rule filter_single)
          show "distinct (propertyOrder (ks @ [k]))"
            using Cons.prems(2) knew by (intro distinct_propertyOrder) simp
          show "k \<in> set (propertyOrder (ks @ [k]))" by (simp add: set_propertyOrder)
          show "\<And>x. x \<in> set (propertyOrder (ks @ [k])) \<Longrightarrow> (map_of ?T x = None) = (x = k)"
            using True old by (fastforce simp: set_propertyOrder)
        qed
        then have "?new = [k]" using eq by simp
        then show ?thesis using eq Cons.prems(2) knew by simp
      qed
    qed
  qed
  have "map fst (snd (fold step evs (step ev st)))
      = propertyOrder ((ks @ ?new) @ creationOrder step evs (step ev st))
      \<and> distinct ((ks @ ?new) @ creationOrder step evs (step ev st))"
    using inv by (intro Cons.IH) simp_all
  then show ?case by simp
qed

lemma perStudent_totals_step:
  "snd (perStudent_processEvent ev st) = snd st
   \<or> (\<exists>k d. snd (perStudent_processEvent ev st) = addToTotal k d (snd st))"
  by (cases st)
    (auto simp: perStudent_processEvent_def perStudent_finishSession_def Let_def
      split: option.splits)

lemma combined_totals_step:
  "snd (combined_processEvent ev idf st) = snd st
   \<or> (\<exists>k d. snd (combined_processEvent ev idf st) = addToTotal k d (snd st))"
  by (cases st)
    (auto simp: combined_processEvent_def combined_finishSession_def Let_def
      split: option.splits)

lemma perStudent_format_keys:
  "perStudent_formatTimeOnTaskResult T = Inr rows \<Longrightarrow> map rowId rows = map fst T"
  by (induction T arbitrary: rows) (auto split: sum.splits)

lemma combined_format_keys:
  "combined_formatTimeOnTaskResult T = Inr rows \<Longrightarrow> map rowId rows = map fst T"
  by (induction T arbitrary: rows) (auto split: sum.splits)

section \<open>The clock string\<close>

text \<open>
  For a total below 2786860 days the date part of the ISO string has a four-digit year
  and so eleven characters; the eight characters after it are the hours, minutes and
  seconds of the time within the day, which is the clock string of the whole seconds of
  the total with the hours taken modulo 24.
\<close>

lemma length_digitsOf_10: "n < 10 \<Longrightarrow> length (digitsOf n) = 1"
  by (subst digitsOf.simps) simp

lemma length_digitsOf_100: "n < 100 \<Longrightarrow> length (digitsOf n) \<le> 2"
proof -
  assume "n < 100"
  then have "n div 10 < 10" by simp
  then have "length (digitsOf (n div 10)) = 1" by (rule length_digitsOf_10)
  then show ?thesis by (subst digitsOf.simps) simp
qed

lemma length_digitsOf_1000: "n < 1000 \<Longrightarrow> length (digitsOf n) \<le> 3"
proof -
  assume "n < 1000"
  then have "n div 10 < 100" by simp
  then have "length (digitsOf (n div 10)) \<le> 2" by (rule length_digitsOf_100)
  then show ?thesis by (subst digitsOf.simps) simp
qed

lemma length_digitsOf_10000: "n < 10000 \<Longrightarrow> length (digitsOf n) \<le> 4"
proof -
  assume "n < 10000"
  then have "n div 10 < 1000" by simp
  then have "length (digitsOf (n div 10)) \<le> 3" by (rule length_digitsOf_1000)
  then show ?thesis by (subst digitsOf.simps) simp
qed

lemma length_pad2: "n < 100 \<Longrightarrow> length (padStart 2 (digitsOf n)) = 2"
  using length_digitsOf_100 [of n] by (simp add: padStart_def)

lemma length_pad4: "n < 10000 \<Longrightarrow> length (padStart 4 (digitsOf n)) = 4"
  using length_digitsOf_10000 [of n] by (simp add: padStart_def)

lemma civilFromDays_bounds:
  assumes "0 \<le> z0" and "z0 < 2786860" and "civilFromDays z0 = (y, m, d)"
  shows "0 \<le> y \<and> y \<le> 9999 \<and> m < 100 \<and> d < 100"
proof -
  define z where "z = z0 + 719468"
  define era where "era = z div 146097"
  define doe where "doe = z mod 146097"
  define f where "f = doe - doe div 1460 + doe div 36524 - doe div 146096"
  define yoe where "yoe = f div 365"
  define doy where "doy = doe - (365 * yoe + yoe div 4 - yoe div 100)"
  define mp where "mp = (5 * doy + 2) div 153"
  define mon where "mon = (if mp < 10 then mp + 3 else mp - 9)"
  have civ: "civilFromDays z0 =
      (yoe + era * 400 + (if mon \<le> 2 then 1 else 0), mon, doy - (153 * mp + 2) div 5 + 1)"
    unfolding mon_def mp_def doy_def yoe_def f_def doe_def era_def z_def civilFromDays_def Let_def
    by (rule refl)
  have era: "4 \<le> era \<and> era \<le> 23"
    using assms(1,2) unfolding era_def z_def by linarith
  have doe: "0 \<le> doe \<and> doe \<le> 146096"
    unfolding doe_def by simp
  have parts: "0 \<le> doe div 1460 \<and> doe div 1460 \<le> 100 \<and> doe div 1460 \<le> doe
      \<and> 0 \<le> doe div 36524 \<and> doe div 36524 \<le> 4
      \<and> 0 \<le> doe div 146096 \<and> doe div 146096 \<le> 1 \<and> doe div 146096 \<le> doe div 36524"
    using doe by linarith
  have f: "0 \<le> f \<and> f \<le> 146100 \<and> doe - f \<le> 101"
    using doe parts unfolding f_def by linarith
  have yoe: "0 \<le> yoe \<and> yoe \<le> 400 \<and> f - 365 * yoe \<le> 364"
    using f unfolding yoe_def by linarith
  have leap: "yoe div 100 \<le> yoe div 4"
    using yoe by linarith
  have doy: "doy \<le> 465"
    using yoe f leap unfolding doy_def by linarith
  have mp: "mp \<le> 15"
    using doy unfolding mp_def by linarith
  have mon: "mon \<le> 18"
    using mp unfolding mon_def by simp
  have d: "doy - (153 * mp + 2) div 5 + 1 \<le> 32"
    unfolding mp_def by linarith
  have "(yoe + era * 400 + (if mon \<le> 2 then 1 else 0), mon, doy - (153 * mp + 2) div 5 + 1)
      = (y, m, d)"
    using assms(3) unfolding civ .
  then have y: "y = yoe + era * 400 + (if mon \<le> 2 then 1 else 0)" and m: "m = mon"
    and dd: "d = doy - (153 * mp + 2) div 5 + 1"
    by blast+
  have "yoe + era * 400 \<le> y \<and> y \<le> yoe + era * 400 + 1"
    unfolding y by simp
  then have "0 \<le> y \<and> y \<le> 9999"
    using era yoe by linarith
  moreover have "m < 100" using mon unfolding m by linarith
  moreover have "d < 100" using d unfolding dd by linarith
  ultimately show ?thesis by blast
qed

lemma clock_of_ms:
  assumes "0 \<le> (t::int)"
  shows "nat (hourFromTime t) = (nat (t div 1000) div 3600) mod 24"
    and "nat (minFromTime t) = (nat (t div 1000) div 60) mod 60"
    and "nat (secFromTime t) = nat (t div 1000) mod 60"
proof -
  have h: "t div 3600000 = (t div 1000) div 3600" and m: "t div 60000 = (t div 1000) div 60"
    by (simp_all add: zdiv_zmult2_eq)
  have nn: "0 \<le> t div 1000" using assms by simp
  show "nat (hourFromTime t) = (nat (t div 1000) div 3600) mod 24"
    using nn by (simp add: hourFromTime_def h nat_mod_distrib nat_div_distrib)
  show "nat (minFromTime t) = (nat (t div 1000) div 60) mod 60"
    using nn by (simp add: minFromTime_def m nat_mod_distrib nat_div_distrib)
  show "nat (secFromTime t) = nat (t div 1000) mod 60"
    using nn by (simp add: secFromTime_def nat_mod_distrib)
qed

lemma substr_middle:
  "length pre = a \<Longrightarrow> length mid = b \<Longrightarrow> substr a b (pre @ mid @ post) = mid"
  by (simp add: substr_def)

lemma clockString_wraps:
  assumes "0 \<le> secs" and "secs < 240784704000"
  shows "clockString secs = Inr (clock24 (nat \<lfloor>secs\<rfloor>))"
proof -
  define t where "t = \<lfloor>secs * 1000\<rfloor>"
  have t0: "0 \<le> t" using assms(1) by (simp add: t_def)
  have "secs * 1000 < 240784704000000" using assms(2) by simp
  then have t1: "t < 240784704000000" unfolding t_def by (simp add: floor_less_iff)
  have clip: "timeClip (secs * 1000) = Some t"
    using assms by (simp add: timeClip_def toIntegerOrInfinity_def t_def)
  have secs: "\<lfloor>secs\<rfloor> = t div 1000"
    using floor_divide_real_eq_div [of 1000 "secs * 1000"] by (simp add: t_def)
  have day: "0 \<le> dayOf t \<and> dayOf t < 2786860"
    using t0 t1 unfolding dayOf_def msPerDay_def by linarith
  obtain y m d where civ: "civilFromDays (dayOf t) = (y, m, d)"
    by (cases "civilFromDays (dayOf t)")
  have b: "0 \<le> y \<and> y \<le> 9999 \<and> m < 100 \<and> d < 100"
    using civilFromDays_bounds [OF _ _ civ] day by blast
  have hb: "nat (hourFromTime t) < 100" "nat (minFromTime t) < 100" "nat (secFromTime t) < 100"
    unfolding clock_of_ms [OF t0]
    by (simp_all add: less_trans [OF mod_less_divisor])
  let ?pre = "isoYear y @ ''-'' @ padStart 2 (digitsOf (nat m)) @ ''-''
      @ padStart 2 (digitsOf (nat d)) @ ''T''"
  let ?mid = "padStart 2 (digitsOf (nat (hourFromTime t)))
        @ '':'' @ padStart 2 (digitsOf (nat (minFromTime t)))
        @ '':'' @ padStart 2 (digitsOf (nat (secFromTime t)))"
  let ?post = "''.'' @ padStart 3 (digitsOf (nat (msFromTime t))) @ ''Z''"
  have iso: "toISOString t = ?pre @ ?mid @ ?post"
    by (simp add: toISOString_def civ)
  have nb: "nat y < 10000" "nat m < 100" "nat d < 100"
    using b by linarith+
  have lpre: "length ?pre = 11"
    using b by (simp add: isoYear_def length_pad2 [OF nb(2)] length_pad2 [OF nb(3)]
        length_pad4 [OF nb(1)])
  have lmid: "length ?mid = 8"
    using hb by (simp add: length_pad2)
  have "substr 11 8 (toISOString t) = ?mid"
    unfolding iso using lpre lmid by (rule substr_middle)
  also have "?mid = clock24 (nat \<lfloor>secs\<rfloor>)"
    by (simp add: clock24_def secs clock_of_ms [OF t0])
  finally show ?thesis
    by (simp add: clockString_def clip)
qed

section \<open>Pause time is subtracted\<close>

text \<open>
  C1. In the per-student script, computing in doubles as the script does, a session that
  is started on a key without an open session, goes through any number of completed
  pauses (and possibly one more pause that is never ended) and is finished, adds to the
  total of its student \<open>max 0 ((endTime - startTime) - pausedTime)\<close> when the end is after
  the start, and nothing otherwise. Here the two subtractions are double subtractions
  taken from the left, \<open>pausedTime\<close> is the sum of the deltas (unpause time minus pause
  time) of the completed pauses, every delta and every partial sum in stream order a
  double, and the amount enters the total by a double addition. The same holds for any
  open session that is finished, whatever led to it. The events \<^verbatim>\<open>started\<close> at 0,
  \<^verbatim>\<open>paused\<close> at 10, \<^verbatim>\<open>unpaused\<close> at 15, \<^verbatim>\<open>finished\<close> at 20 on one key give that student
  exactly 15; with \<^verbatim>\<open>started\<close> at 1.9, \<^verbatim>\<open>paused\<close> at 3.9, \<^verbatim>\<open>unpaused\<close> at 5 and
  \<^verbatim>\<open>finished\<close> at 6 the total is the double just below 3.
\<close>

theorem pause_time_subtracted:
  assumes "S (sessionKey uid tid) = None"
  shows "fold perStudent_processEvent_dbl
           (mkEvent uid cid tid ''started'' t0 # pauseEvents uid cid tid pairs
              @ [mkEvent uid cid tid ''finished'' t1]) (S, T)
         = (S, if t0 < t1
               then addToTotal_dbl uid (max 0 (dblSub (dblSub t1 t0) (pauseSum 0 pairs))) T
               else T)
       \<and> fold perStudent_processEvent_dbl
           (mkEvent uid cid tid ''started'' t0 # pauseEvents uid cid tid pairs
              @ [mkEvent uid cid tid ''paused'' p, mkEvent uid cid tid ''finished'' t1]) (S, T)
         = (S, if t0 < t1
               then addToTotal_dbl uid (max 0 (dblSub (dblSub t1 t0) (pauseSum 0 pairs))) T
               else T)
       \<and> map_of (addToTotal_dbl uid d T) = (map_of T)(uid \<mapsto> dblAdd (totalOf T uid) d)
       \<and> (action ev = ''finished'' \<and> S' (sessionKey (userId ev) (taskId ev)) = Some s
            \<and> startTime s < client_time ev \<longrightarrow>
            snd (perStudent_processEvent_dbl ev (S', T))
            = addToTotal_dbl (userId ev)
                (max 0 (dblSub (dblSub (client_time ev) (startTime s)) (pausedTime s))) T)
       \<and> (action ev = ''finished'' \<and> S' (sessionKey (userId ev) (taskId ev)) = Some s
            \<and> client_time ev \<le> startTime s \<longrightarrow>
            snd (perStudent_processEvent_dbl ev (S', T)) = T)
       \<and> perStudent_processEvents_dbl
            [mkEvent uid cid tid ''started'' 0, mkEvent uid cid tid ''paused'' 10,
             mkEvent uid cid tid ''unpaused'' 15, mkEvent uid cid tid ''finished'' 20]
           = [(uid, 15)]
       \<and> perStudent_processEvents_dbl
            [mkEvent uid cid tid ''started'' (4278419646001971 / 2251799813685248),
             mkEvent uid cid tid ''paused'' (8782019273372467 / 2251799813685248),
             mkEvent uid cid tid ''unpaused'' 5, mkEvent uid cid tid ''finished'' 6]
           = [(uid, 6755399441055743 / 2251799813685248)]"
proof -
  have whole: "fold perStudent_processEvent_dbl
           (mkEvent uid cid tid ''started'' t0 # pauseEvents uid cid tid pairs
              @ [mkEvent uid cid tid ''finished'' t1]) (S, T)
         = (S, if t0 < t1
               then addToTotal_dbl uid (max 0 (dblSub (dblSub t1 t0) (pauseSum 0 pairs))) T
               else T)"
    using assms by (rule perStudent_whole_session_dbl)
  have dangling: "fold perStudent_processEvent_dbl
           (mkEvent uid cid tid ''started'' t0 # pauseEvents uid cid tid pairs
              @ [mkEvent uid cid tid ''paused'' p, mkEvent uid cid tid ''finished'' t1]) (S, T)
         = (S, if t0 < t1
               then addToTotal_dbl uid (max 0 (dblSub (dblSub t1 t0) (pauseSum 0 pairs))) T
               else T)"
    using assms by (rule perStudent_whole_session_open_pause_dbl)
  have add: "map_of (addToTotal_dbl uid d T) = (map_of T)(uid \<mapsto> dblAdd (totalOf T uid) d)"
    by (rule map_of_addToTotal_dbl)
  have fin: "action ev = ''finished'' \<and> S' (sessionKey (userId ev) (taskId ev)) = Some s
            \<and> startTime s < client_time ev \<longrightarrow>
            snd (perStudent_processEvent_dbl ev (S', T))
            = addToTotal_dbl (userId ev)
                (max 0 (dblSub (dblSub (client_time ev) (startTime s)) (pausedTime s))) T"
    by (simp add: perStudent_finished_dbl perStudent_finish_open_dbl)
  have inv: "action ev = ''finished'' \<and> S' (sessionKey (userId ev) (taskId ev)) = Some s
            \<and> client_time ev \<le> startTime s \<longrightarrow>
            snd (perStudent_processEvent_dbl ev (S', T)) = T"
    by (simp add: perStudent_finished_dbl perStudent_finish_open_dbl)
  have "perStudent_processEvents_dbl
            ([mkEvent uid cid tid ''started'' 0] @ pauseEvents uid cid tid [(10, 15)]
             @ [mkEvent uid cid tid ''finished'' 20])
           = [(uid, 15)]"
    unfolding perStudent_processEvents_def perStudent_processEvents_dbl_def
    using perStudent_whole_session_dbl [of Map.empty uid tid cid 0 "[(10, 15)]" 20 "[]"]
    by (simp add: addToTotal_dbl_def setProp_def dbl_scenario_15)
  then have ex: "perStudent_processEvents_dbl
            [mkEvent uid cid tid ''started'' 0, mkEvent uid cid tid ''paused'' 10,
             mkEvent uid cid tid ''unpaused'' 15, mkEvent uid cid tid ''finished'' 20]
           = [(uid, 15)]"
    by simp
  have "perStudent_processEvents_dbl
            ([mkEvent uid cid tid ''started'' (4278419646001971 / 2251799813685248)]
             @ pauseEvents uid cid tid [(8782019273372467 / 2251799813685248, 5)]
             @ [mkEvent uid cid tid ''finished'' 6])
           = [(uid, 6755399441055743 / 2251799813685248)]"
    unfolding perStudent_processEvents_dbl_def
    using perStudent_whole_session_dbl [of Map.empty uid tid cid
        "4278419646001971 / 2251799813685248" "[(8782019273372467 / 2251799813685248, 5)]" 6 "[]"]
    by (simp add: addToTotal_dbl_def setProp_def dbl_scenario_rounded)
  then have rounded: "perStudent_processEvents_dbl
            [mkEvent uid cid tid ''started'' (4278419646001971 / 2251799813685248),
             mkEvent uid cid tid ''paused'' (8782019273372467 / 2251799813685248),
             mkEvent uid cid tid ''unpaused'' 5, mkEvent uid cid tid ''finished'' 6]
           = [(uid, 6755399441055743 / 2251799813685248)]"
    by simp
  show ?thesis using whole dangling add fin inv ex rounded by blast
qed

theorem pause_time_subtracted_witness:
  "fold perStudent_processEvent_dbl
     [mkEvent 1 7 ''t'' ''started'' 0, mkEvent 1 7 ''t'' ''paused'' 10,
      mkEvent 1 7 ''t'' ''unpaused'' 15, mkEvent 1 7 ''t'' ''finished'' 20] (Map.empty, [])
   = (Map.empty, [(1, 15)])
   \<and> snd (perStudent_processEvent_dbl (mkEvent 1 7 ''t'' ''finished'' 20)
       ([''1-t'' \<mapsto> \<lparr>startTime = 0, pausedTime = 5, isPaused = False,
                          pauseStartTime = Some 10\<rparr>], [])) = [(1, 15)]
   \<and> snd (perStudent_processEvent_dbl (mkEvent 1 7 ''t'' ''finished'' 20)
       ([''1-t'' \<mapsto> \<lparr>startTime = 25, pausedTime = 0, isPaused = False,
                          pauseStartTime = None\<rparr>], [])) = []"
  using pause_time_subtracted [where S = Map.empty and uid = 1 and tid = "''t''" and cid = 7
      and ?t0.0 = 0 and ?t1.0 = 20 and pairs = "[(10, 15)]" and T = "[]"
      and ev = "mkEvent 1 7 ''t'' ''finished'' 20"
      and S' = "[''1-t'' \<mapsto> \<lparr>startTime = 0, pausedTime = 5, isPaused = False,
                          pauseStartTime = Some 10\<rparr>]"
      and s = "\<lparr>startTime = 0, pausedTime = 5, isPaused = False, pauseStartTime = Some 10\<rparr>"]
    pause_time_subtracted [where S = Map.empty and uid = 1 and tid = "''t''" and cid = 7
      and ?t0.0 = 0 and ?t1.0 = 20 and pairs = "[(10, 15)]" and T = "[]"
      and ev = "mkEvent 1 7 ''t'' ''finished'' 20"
      and S' = "[''1-t'' \<mapsto> \<lparr>startTime = 25, pausedTime = 0, isPaused = False,
                          pauseStartTime = None\<rparr>]"
      and s = "\<lparr>startTime = 25, pausedTime = 0, isPaused = False, pauseStartTime = None\<rparr>"]
  by (simp add: mkEvent_def sessionKey_1t addToTotal_dbl_def setProp_def dbl_scenario_15)

text \<open>
  Without the floor at zero the equation fails: after \<^verbatim>\<open>started\<close> at 0, \<^verbatim>\<open>paused\<close> at 1
  and \<^verbatim>\<open>unpaused\<close> at 30 the open session has 29 seconds of paused time, and
  \<^verbatim>\<open>finished\<close> at 20 adds 0 to the total, not \<open>(20 - 0) - 29\<close>, which is -9 in doubles
  too.
\<close>

theorem pause_time_subtracted_counterexample:
  "fst (fold perStudent_processEvent_dbl
     [mkEvent 1 7 ''t'' ''started'' 0, mkEvent 1 7 ''t'' ''paused'' 1,
      mkEvent 1 7 ''t'' ''unpaused'' 30] (Map.empty, [])) ''1-t''
     = Some \<lparr>startTime = 0, pausedTime = 29, isPaused = False, pauseStartTime = Some 1\<rparr>
   \<and> perStudent_processEvents_dbl
     [mkEvent 1 7 ''t'' ''started'' 0, mkEvent 1 7 ''t'' ''paused'' 1,
      mkEvent 1 7 ''t'' ''unpaused'' 30, mkEvent 1 7 ''t'' ''finished'' 20] = [(1, 0)]
   \<and> dblSub (dblSub 20 0) 29 = - 9
   \<and> totalOf (perStudent_processEvents_dbl
     [mkEvent 1 7 ''t'' ''started'' 0, mkEvent 1 7 ''t'' ''paused'' 1,
      mkEvent 1 7 ''t'' ''unpaused'' 30, mkEvent 1 7 ''t'' ''finished'' 20]) 1
     \<noteq> dblSub (dblSub 20 0) 29"
  by code_simp

section \<open>The span bound of each script\<close>

text \<open>
  C2. Computing in doubles as the scripts do: in the combined script an open session
  that is finished contributes exactly when its end is after its start and the double
  difference of the two is below 3600, so it contributes only if the span is below 3600
  seconds (a span of 3600 or more never rounds below 3600), and \<^verbatim>\<open>started\<close> at 0 followed
  by \<^verbatim>\<open>finished\<close> at 4000 on one key leaves the totals empty; in the per-student script
  every session with the end after the start contributes, whatever its span, and the
  same two events give that student 4000. The bound sits on the rounded difference:
  between the doubles nearest to 0.1 and 3600.1 the combined script finds 3600 and drops
  the session.
\<close>

theorem span_bound_differs_by_path:
  assumes "action ev = ''finished''"
  shows "(S (sessionKey (eventField ev idf) (taskId ev)) = Some s \<longrightarrow>
           snd (combined_processEvent_dbl ev idf (S, T)) =
             (if startTime s < client_time ev \<and> dblSub (client_time ev) (startTime s) < 3600
              then addToTotal_dbl (eventField ev idf)
                     (max 0 (dblSub (dblSub (client_time ev) (startTime s)) (pausedTime s))) T
              else T)
           \<and> (3600 \<le> client_time ev - startTime s \<longrightarrow>
                snd (combined_processEvent_dbl ev idf (S, T)) = T))
       \<and> (S (sessionKey (userId ev) (taskId ev)) = Some s \<longrightarrow>
           snd (perStudent_processEvent_dbl ev (S, T)) =
             (if startTime s < client_time ev
              then addToTotal_dbl (userId ev)
                     (max 0 (dblSub (dblSub (client_time ev) (startTime s)) (pausedTime s))) T
              else T))
       \<and> combined_processEvents_dbl
            [mkEvent uid cid tid ''started'' 0, mkEvent uid cid tid ''finished'' 4000] idf = []
       \<and> perStudent_processEvents_dbl
            [mkEvent uid cid tid ''started'' 0, mkEvent uid cid tid ''finished'' 4000]
           = [(uid, 4000)]
       \<and> combined_processEvents_dbl
            [mkEvent uid cid tid ''started'' (3602879701896397 / 36028797018963968),
             mkEvent uid cid tid ''finished'' (7916703622312755 / 2199023255552)] idf = []"
proof -
  have a: "S (sessionKey (eventField ev idf) (taskId ev)) = Some s \<Longrightarrow>
           snd (combined_processEvent_dbl ev idf (S, T)) =
             (if startTime s < client_time ev \<and> dblSub (client_time ev) (startTime s) < 3600
              then addToTotal_dbl (eventField ev idf)
                     (max 0 (dblSub (dblSub (client_time ev) (startTime s)) (pausedTime s))) T
              else T)"
    using assms by (simp add: combined_finished_dbl combined_finish_open_dbl)
  have a': "S (sessionKey (eventField ev idf) (taskId ev)) = Some s \<Longrightarrow>
           3600 \<le> client_time ev - startTime s \<Longrightarrow>
           snd (combined_processEvent_dbl ev idf (S, T)) = T"
  proof -
    assume open_s: "S (sessionKey (eventField ev idf) (taskId ev)) = Some s"
      and span: "3600 \<le> client_time ev - startTime s"
    have "\<not> dblSub (client_time ev) (startTime s) < 3600"
      using span by (rule dblSub_cap)
    then show ?thesis using a [OF open_s] by simp
  qed
  have b: "S (sessionKey (userId ev) (taskId ev)) = Some s \<Longrightarrow>
           snd (perStudent_processEvent_dbl ev (S, T)) =
             (if startTime s < client_time ev
              then addToTotal_dbl (userId ev)
                     (max 0 (dblSub (dblSub (client_time ev) (startTime s)) (pausedTime s))) T
              else T)"
    using assms by (simp add: perStudent_finished_dbl perStudent_finish_open_dbl)
  have c: "combined_processEvents_dbl
            [mkEvent uid cid tid ''started'' 0, mkEvent uid cid tid ''finished'' 4000] idf = []"
    by (simp add: combined_processEvents_dbl_def combined_processEvent_dbl_def Let_def
        mkEvent_def combined_startSession_def combined_finishSession_dbl_def dbl_scenario_4000)
  have d: "perStudent_processEvents_dbl
            [mkEvent uid cid tid ''started'' 0, mkEvent uid cid tid ''finished'' 4000]
           = [(uid, 4000)]"
    by (simp add: perStudent_processEvents_dbl_def perStudent_processEvent_dbl_def Let_def
        mkEvent_def perStudent_startSession_def perStudent_finishSession_dbl_def
        addToTotal_dbl_def setProp_def dbl_scenario_4000)
  have e: "combined_processEvents_dbl
            [mkEvent uid cid tid ''started'' (3602879701896397 / 36028797018963968),
             mkEvent uid cid tid ''finished'' (7916703622312755 / 2199023255552)] idf = []"
    by (simp add: combined_processEvents_dbl_def combined_processEvent_dbl_def Let_def
        mkEvent_def combined_startSession_def combined_finishSession_dbl_def dbl_scenario_cap)
  show ?thesis using a a' b c d e by blast
qed

theorem span_bound_differs_by_path_witness:
  "snd (combined_processEvent_dbl (mkEvent 1 7 ''t'' ''finished'' 4000) UserIdField
         ([''1-t'' \<mapsto> \<lparr>startTime = 0, pausedTime = 0, isPaused = False, pauseStartTime = None\<rparr>],
          [])) = []
   \<and> snd (perStudent_processEvent_dbl (mkEvent 1 7 ''t'' ''finished'' 4000)
         ([''1-t'' \<mapsto> \<lparr>startTime = 0, pausedTime = 0, isPaused = False, pauseStartTime = None\<rparr>],
          [])) = [(1, 4000)]
   \<and> combined_processEvents_dbl
        [mkEvent 1 7 ''t'' ''started'' 0, mkEvent 1 7 ''t'' ''finished'' 4000] UserIdField = []
   \<and> perStudent_processEvents_dbl
        [mkEvent 1 7 ''t'' ''started'' 0, mkEvent 1 7 ''t'' ''finished'' 4000] = [(1, 4000)]"
  using span_bound_differs_by_path [where ev = "mkEvent 1 7 ''t'' ''finished'' 4000"
      and S = "[''1-t'' \<mapsto>
        \<lparr>startTime = 0, pausedTime = 0, isPaused = False, pauseStartTime = None\<rparr>]"
      and s = "\<lparr>startTime = 0, pausedTime = 0, isPaused = False, pauseStartTime = None\<rparr>"
      and idf = UserIdField and T = "[]" and uid = 1 and cid = 7 and tid = "''t''"]
  by (simp add: mkEvent_def sessionKey_1t addToTotal_dbl_def setProp_def dbl_scenario_4000)

section \<open>Duplicate start\<close>

text \<open>
  C3. In the per-student script a second \<^verbatim>\<open>started\<close> event on the key of a first one
  changes nothing: the state after both is the state after the first, so any stream
  continues alike with or without the duplicate (in particular \<^verbatim>\<open>started\<close>, \<^verbatim>\<open>started\<close>,
  \<^verbatim>\<open>finished\<close> against \<^verbatim>\<open>started\<close>, \<^verbatim>\<open>finished\<close>), the final totals are equal, and a
  \<^verbatim>\<open>started\<close> event on a key with an open session leaves the table as it is. The order of
  the timestamps plays no part.
\<close>

theorem duplicate_start_idempotent:
  assumes "action e1 = ''started''" and "action e2 = ''started''"
    and "userId e2 = userId e1" and "taskId e2 = taskId e1"
  shows "perStudent_processEvent e2 (perStudent_processEvent e1 st) = perStudent_processEvent e1 st
       \<and> fold perStudent_processEvent (e1 # e2 # rest) st
           = fold perStudent_processEvent (e1 # rest) st
       \<and> perStudent_processEvents (e1 # e2 # rest) = perStudent_processEvents (e1 # rest)
       \<and> (fst st (sessionKey (userId e2) (taskId e2)) \<noteq> None \<longrightarrow>
            perStudent_processEvent e2 st = st)"
proof -
  obtain S T where st: "st = (S, T)" by (cases st)
  have 1: "perStudent_processEvent e2 (perStudent_processEvent e1 st') = perStudent_processEvent e1 st'"
    for st'
    using assms
    by (cases st') (simp add: perStudent_started perStudent_startSession_def split: option.splits)
  have 2: "fst st (sessionKey (userId e2) (taskId e2)) \<noteq> None \<longrightarrow>
            perStudent_processEvent e2 st = st"
    using assms
    by (auto simp add: st perStudent_started perStudent_startSession_def split: option.splits)
  show ?thesis using 1 2 by (simp add: perStudent_processEvents_def)
qed

theorem duplicate_start_idempotent_witness:
  "perStudent_processEvents
     [mkEvent 1 7 ''t'' ''started'' 1, mkEvent 1 7 ''t'' ''started'' 2,
      mkEvent 1 7 ''t'' ''finished'' 3]
   = perStudent_processEvents
     [mkEvent 1 7 ''t'' ''started'' 1, mkEvent 1 7 ''t'' ''finished'' 3]
   \<and> perStudent_processEvent (mkEvent 1 7 ''t'' ''started'' 2)
       (perStudent_processEvent (mkEvent 1 7 ''t'' ''started'' 1) (Map.empty, []))
     = perStudent_processEvent (mkEvent 1 7 ''t'' ''started'' 1) (Map.empty, [])"
  using duplicate_start_idempotent [where ?e1.0 = "mkEvent 1 7 ''t'' ''started'' 1"
      and ?e2.0 = "mkEvent 1 7 ''t'' ''started'' 2"
      and rest = "[mkEvent 1 7 ''t'' ''finished'' 3]" and st = "(Map.empty, [])"]
  by (simp add: mkEvent_def)

section \<open>Orphan finish\<close>

text \<open>
  C4. A \<^verbatim>\<open>finished\<close> event whose key has no open session changes neither the session
  table nor any total, in the per-student and in the combined script, and no branch of
  the dispatch raises; a stream made of one such event alone yields empty totals.
\<close>

theorem orphan_finish_no_effect:
  assumes "action ev = ''finished''"
  shows "(activeSessions (sessionKey (userId ev) (taskId ev)) = None \<longrightarrow>
            perStudent_processEvent ev (activeSessions, timeOnTask) = (activeSessions, timeOnTask))
       \<and> (activeSessions (sessionKey (eventField ev idf) (taskId ev)) = None \<longrightarrow>
            combined_processEvent ev idf (activeSessions, timeOnTask) = (activeSessions, timeOnTask))
       \<and> perStudent_processEvents [ev] = []
       \<and> combined_processEvents [ev] idf = []"
  using assms
  by (simp add: perStudent_finished perStudent_finishSession_def
      combined_finished combined_finishSession_def
      perStudent_processEvents_def combined_processEvents_def)

theorem orphan_finish_no_effect_witness:
  "perStudent_processEvent (mkEvent 1 7 ''t'' ''finished'' 5) (Map.empty, []) = (Map.empty, [])
   \<and> combined_processEvent (mkEvent 1 7 ''t'' ''finished'' 5) ClassIdField (Map.empty, [])
       = (Map.empty, [])
   \<and> perStudent_processEvents [mkEvent 1 7 ''t'' ''finished'' 5] = []
   \<and> combined_processEvents [mkEvent 1 7 ''t'' ''finished'' 5] ClassIdField = []"
  using orphan_finish_no_effect [where ev = "mkEvent 1 7 ''t'' ''finished'' 5"
      and activeSessions = Map.empty and idf = ClassIdField and timeOnTask = "[]"]
  by (simp add: mkEvent_def)

section \<open>The floor at zero\<close>



section \<open>The state machine of a session\<close>



section \<open>A finish always closes the session\<close>

text \<open>
  C7. A \<^verbatim>\<open>finished\<close> event whose key has an open session removes that session from
  the table whatever the duration; when the duration is invalid (the end is not after
  the start, or, in the combined script, the span is 3600 or more) the totals are
  returned as they were.
\<close>

theorem finish_always_closes_session:
  assumes "action ev = ''finished''"
  shows "(activeSessions (sessionKey (userId ev) (taskId ev)) = Some s \<longrightarrow>
            fst (perStudent_processEvent ev (activeSessions, timeOnTask))
              = activeSessions(sessionKey (userId ev) (taskId ev) := None)
          \<and> (client_time ev \<le> startTime s \<longrightarrow>
               snd (perStudent_processEvent ev (activeSessions, timeOnTask)) = timeOnTask))
       \<and> (activeSessions (sessionKey (eventField ev idf) (taskId ev)) = Some s \<longrightarrow>
            fst (combined_processEvent ev idf (activeSessions, timeOnTask))
              = activeSessions(sessionKey (eventField ev idf) (taskId ev) := None)
          \<and> (client_time ev \<le> startTime s \<or> 3600 \<le> client_time ev - startTime s \<longrightarrow>
               snd (combined_processEvent ev idf (activeSessions, timeOnTask)) = timeOnTask))"
  using assms
  by (auto simp add: perStudent_finished perStudent_finishSession_def
      combined_finished combined_finishSession_def Let_def)

theorem finish_always_closes_session_witness:
  "fst (perStudent_processEvent (mkEvent 1 7 ''t'' ''finished'' 5)
         ([''1-t'' \<mapsto> \<lparr>startTime = 10, pausedTime = 0, isPaused = False, pauseStartTime = None\<rparr>],
          [(3, 8)])) = Map.empty
   \<and> snd (perStudent_processEvent (mkEvent 1 7 ''t'' ''finished'' 5)
         ([''1-t'' \<mapsto> \<lparr>startTime = 10, pausedTime = 0, isPaused = False, pauseStartTime = None\<rparr>],
          [(3, 8)])) = [(3, 8)]
   \<and> fst (combined_processEvent (mkEvent 1 7 ''t'' ''finished'' 5) UserIdField
         ([''1-t'' \<mapsto> \<lparr>startTime = 10, pausedTime = 0, isPaused = False, pauseStartTime = None\<rparr>],
          [(3, 8)])) = Map.empty
   \<and> snd (combined_processEvent (mkEvent 1 7 ''t'' ''finished'' 5) UserIdField
         ([''1-t'' \<mapsto> \<lparr>startTime = 10, pausedTime = 0, isPaused = False, pauseStartTime = None\<rparr>],
          [(3, 8)])) = [(3, 8)]"
  using finish_always_closes_session [where ev = "mkEvent 1 7 ''t'' ''finished'' 5"
      and activeSessions = "[''1-t'' \<mapsto>
        \<lparr>startTime = 10, pausedTime = 0, isPaused = False, pauseStartTime = None\<rparr>]"
      and s = "\<lparr>startTime = 10, pausedTime = 0, isPaused = False, pauseStartTime = None\<rparr>"
      and idf = UserIdField and timeOnTask = "[(3, 8)]"]
  by (simp add: mkEvent_def sessionKey_1t)

section \<open>The order of the result\<close>

text \<open>
  C8. After the whole stream, the pairs of the totals object, and with them the records
  of the formatter, come in the property order of the object: the entities whose id is
  an array index (an integer from 0 to 2^32 - 2) first, in ascending order of the id,
  then the other entities in the order in which their totals were created, which is the
  order of their first valid contribution. This holds in the per-student and in the
  combined script.
\<close>

theorem result_in_property_order:
  "map fst (perStudent_processEvents events)
     = propertyOrder (creationOrder perStudent_processEvent events (Map.empty, []))
   \<and> map fst (combined_processEvents events idf)
     = propertyOrder (creationOrder (\<lambda>ev. combined_processEvent ev idf) events (Map.empty, []))
   \<and> distinct (creationOrder perStudent_processEvent events (Map.empty, []))
   \<and> distinct (creationOrder (\<lambda>ev. combined_processEvent ev idf) events (Map.empty, []))
   \<and> (perStudent_formatTimeOnTaskResult (perStudent_processEvents events) = Inr rows \<longrightarrow>
        map rowId rows
          = propertyOrder (creationOrder perStudent_processEvent events (Map.empty, [])))
   \<and> (combined_formatTimeOnTaskResult (combined_processEvents events idf) = Inr rows' \<longrightarrow>
        map rowId rows'
          = propertyOrder (creationOrder (\<lambda>ev. combined_processEvent ev idf) events
              (Map.empty, [])))"
proof -
  have ps: "map fst (snd (fold perStudent_processEvent events (Map.empty, [])))
      = propertyOrder ([] @ creationOrder perStudent_processEvent events (Map.empty, []))
      \<and> distinct ([] @ creationOrder perStudent_processEvent events (Map.empty, []))"
    by (rule creationOrder_fold [OF perStudent_totals_step]) (simp_all add: propertyOrder_def)
  have cb: "map fst (snd (fold (\<lambda>ev. combined_processEvent ev idf) events (Map.empty, [])))
      = propertyOrder ([] @ creationOrder (\<lambda>ev. combined_processEvent ev idf) events (Map.empty, []))
      \<and> distinct ([] @ creationOrder (\<lambda>ev. combined_processEvent ev idf) events (Map.empty, []))"
    by (rule creationOrder_fold [OF combined_totals_step]) (simp_all add: propertyOrder_def)
  show ?thesis
    using ps cb perStudent_format_keys [of "perStudent_processEvents events" rows]
      combined_format_keys [of "combined_processEvents events idf" rows']
    by (simp add: perStudent_processEvents_def combined_processEvents_def)
qed

theorem result_in_property_order_witness:
  "map fst (perStudent_processEvents
     [mkEvent 5 7 ''t'' ''started'' 1, mkEvent 5 7 ''t'' ''finished'' 2,
      mkEvent (- 3) 7 ''t'' ''started'' 3, mkEvent (- 3) 7 ''t'' ''finished'' 4,
      mkEvent 2 7 ''t'' ''started'' 5, mkEvent 2 7 ''t'' ''finished'' 6,
      mkEvent (- 1) 7 ''t'' ''started'' 7, mkEvent (- 1) 7 ''t'' ''finished'' 8])
   = [2, 5, - 3, - 1]
   \<and> map rowId
       [\<lparr>rowId = 2, totalTimeOnTask = ''00:00:01''\<rparr>, \<lparr>rowId = 5, totalTimeOnTask = ''00:00:01''\<rparr>,
        \<lparr>rowId = - 3, totalTimeOnTask = ''00:00:01''\<rparr>,
        \<lparr>rowId = - 1, totalTimeOnTask = ''00:00:01''\<rparr>]
     = propertyOrder [5, - 3, 2, - 1]"
proof -
  let ?evs = "[mkEvent 5 7 ''t'' ''started'' 1, mkEvent 5 7 ''t'' ''finished'' 2,
      mkEvent (- 3) 7 ''t'' ''started'' 3, mkEvent (- 3) 7 ''t'' ''finished'' 4,
      mkEvent 2 7 ''t'' ''started'' 5, mkEvent 2 7 ''t'' ''finished'' 6,
      mkEvent (- 1) 7 ''t'' ''started'' 7, mkEvent (- 1) 7 ''t'' ''finished'' 8]"
  let ?rows = "[\<lparr>rowId = 2, totalTimeOnTask = ''00:00:01''\<rparr>,
        \<lparr>rowId = 5, totalTimeOnTask = ''00:00:01''\<rparr>,
        \<lparr>rowId = - 3, totalTimeOnTask = ''00:00:01''\<rparr>,
        \<lparr>rowId = - 1, totalTimeOnTask = ''00:00:01''\<rparr>]"
  have c: "creationOrder perStudent_processEvent ?evs (Map.empty, []) = [5, - 3, 2, - 1]"
    by code_simp
  have p: "propertyOrder [5, - 3, 2, - 1] = [2, 5, - 3, - 1]"
    by code_simp
  have f: "perStudent_formatTimeOnTaskResult (perStudent_processEvents ?evs) = Inr ?rows"
    by code_simp
  show ?thesis
    using result_in_property_order [where events = ?evs and rows = ?rows and idf = UserIdField]
    by (simp add: c p f)
qed

text \<open>
  The order is not the order of first contribution: when student 2 finishes a valid
  session before student 1 does, the total of student 2 is created first, and yet the
  result lists student 1 first.
\<close>

theorem result_in_insertion_order_counterexample:
  "creationOrder perStudent_processEvent
     [mkEvent 2 7 ''t'' ''started'' 1, mkEvent 2 7 ''t'' ''finished'' 2,
      mkEvent 1 7 ''t'' ''started'' 3, mkEvent 1 7 ''t'' ''finished'' 4] (Map.empty, []) = [2, 1]
   \<and> perStudent_processEvents
     [mkEvent 2 7 ''t'' ''started'' 1, mkEvent 2 7 ''t'' ''finished'' 2,
      mkEvent 1 7 ''t'' ''started'' 3, mkEvent 1 7 ''t'' ''finished'' 4] = [(1, 1), (2, 1)]
   \<and> perStudent_formatTimeOnTaskResult (perStudent_processEvents
     [mkEvent 2 7 ''t'' ''started'' 1, mkEvent 2 7 ''t'' ''finished'' 2,
      mkEvent 1 7 ''t'' ''started'' 3, mkEvent 1 7 ''t'' ''finished'' 4])
     = Inr [\<lparr>rowId = 1, totalTimeOnTask = ''00:00:01''\<rparr>,
            \<lparr>rowId = 2, totalTimeOnTask = ''00:00:01''\<rparr>]"
  by code_simp

section \<open>The scenario of the specification\<close>

text \<open>
  C9. The four events of student 1 on task \<^verbatim>\<open>t\<close> (\<^verbatim>\<open>started\<close> at 0, \<^verbatim>\<open>paused\<close> at 5,
  \<^verbatim>\<open>unpaused\<close> at 8, \<^verbatim>\<open>finished\<close> at 20) give the totals object one property, 17 for
  student 1, and the formatter returns the single record with id 1 and the string
  \<^verbatim>\<open>00:00:17\<close>. That string is the two-digit clock string of 17 seconds with the hours
  taken modulo 24, as the formatted string of every total from 0 up to 2786860 days is
  the clock string of its whole seconds.
\<close>

theorem scenario_seventeen_seconds:
  "perStudent_processEvents
     [mkEvent 1 cid ''t'' ''started'' 0, mkEvent 1 cid ''t'' ''paused'' 5,
      mkEvent 1 cid ''t'' ''unpaused'' 8, mkEvent 1 cid ''t'' ''finished'' 20] = [(1, 17)]
   \<and> perStudent_formatTimeOnTaskResult (perStudent_processEvents
     [mkEvent 1 cid ''t'' ''started'' 0, mkEvent 1 cid ''t'' ''paused'' 5,
      mkEvent 1 cid ''t'' ''unpaused'' 8, mkEvent 1 cid ''t'' ''finished'' 20])
     = Inr [\<lparr>rowId = 1, totalTimeOnTask = ''00:00:17''\<rparr>]
   \<and> clock24 17 = ''00:00:17''
   \<and> (0 \<le> secs \<and> secs < 240784704000 \<longrightarrow>
        clockString secs = Inr (clock24 (nat \<lfloor>secs\<rfloor>)))"
proof -
  have wrap: "0 \<le> secs \<and> secs < 240784704000 \<longrightarrow>
        clockString secs = Inr (clock24 (nat \<lfloor>secs\<rfloor>))"
    using clockString_wraps [of secs] by blast
  have run: "perStudent_processEvents
     [mkEvent 1 cid ''t'' ''started'' 0, mkEvent 1 cid ''t'' ''paused'' 5,
      mkEvent 1 cid ''t'' ''unpaused'' 8, mkEvent 1 cid ''t'' ''finished'' 20] = [(1, 17)]"
    by (simp add: perStudent_processEvents_def perStudent_processEvent_def Let_def mkEvent_def
        sessionKey_1t perStudent_startSession_def perStudent_pauseSession_def
        perStudent_unpauseSession_def perStudent_finishSession_def addToTotal_def setProp_def)
  have fmt: "perStudent_formatTimeOnTaskResult [(1, 17)]
      = Inr [\<lparr>rowId = 1, totalTimeOnTask = ''00:00:17''\<rparr>]"
    by code_simp
  have clk: "clock24 17 = ''00:00:17''"
    by code_simp
  show ?thesis unfolding run by (intro conjI refl fmt clk wrap)
qed

theorem scenario_seventeen_seconds_witness:
  "perStudent_processEvents
     [mkEvent 1 7 ''t'' ''started'' 0, mkEvent 1 7 ''t'' ''paused'' 5,
      mkEvent 1 7 ''t'' ''unpaused'' 8, mkEvent 1 7 ''t'' ''finished'' 20] = [(1, 17)]
   \<and> perStudent_formatTimeOnTaskResult (perStudent_processEvents
     [mkEvent 1 7 ''t'' ''started'' 0, mkEvent 1 7 ''t'' ''paused'' 5,
      mkEvent 1 7 ''t'' ''unpaused'' 8, mkEvent 1 7 ''t'' ''finished'' 20])
     = Inr [\<lparr>rowId = 1, totalTimeOnTask = ''00:00:17''\<rparr>]
   \<and> clockString 90017 = Inr ''01:00:17''"
proof -
  have clk: "clock24 90017 = ''01:00:17''"
    by (simp add: clock24_def padStart_def digitsOf.simps digitChar_def)
  have whole: "nat \<lfloor>90017 :: real\<rfloor> = 90017"
    by simp
  have all: "perStudent_processEvents
     [mkEvent 1 7 ''t'' ''started'' 0, mkEvent 1 7 ''t'' ''paused'' 5,
      mkEvent 1 7 ''t'' ''unpaused'' 8, mkEvent 1 7 ''t'' ''finished'' 20] = [(1, 17)]
   \<and> perStudent_formatTimeOnTaskResult (perStudent_processEvents
     [mkEvent 1 7 ''t'' ''started'' 0, mkEvent 1 7 ''t'' ''paused'' 5,
      mkEvent 1 7 ''t'' ''unpaused'' 8, mkEvent 1 7 ''t'' ''finished'' 20])
     = Inr [\<lparr>rowId = 1, totalTimeOnTask = ''00:00:17''\<rparr>]
   \<and> clock24 17 = ''00:00:17''
   \<and> (0 \<le> (90017 :: real) \<and> (90017 :: real) < 240784704000 \<longrightarrow>
        clockString 90017 = Inr (clock24 (nat \<lfloor>90017 :: real\<rfloor>)))"
    by (rule scenario_seventeen_seconds [where cid = 7 and secs = 90017])
  then have "clockString 90017 = Inr (clock24 (nat \<lfloor>90017 :: real\<rfloor>))"
    by simp
  then have "clockString 90017 = Inr ''01:00:17''"
    by (simp only: whole clk)
  with all show ?thesis by blast
qed

section \<open>The per-class script against the combined one\<close>

text \<open>
  C10. On every event, and so on every list of events, the per-class script computes what
  the combined script computes for the column \<^verbatim>\<open>classId\<close>: the same dispatch on
  \<^verbatim>\<open>application-paused\<close> and \<^verbatim>\<open>application-unpaused\<close>, the same bound of 3600 seconds, the
  same totals object.
\<close>

theorem perClass_refines_combined:
  "perClass_processEvent ev st = combined_processEvent ev ClassIdField st
   \<and> perClass_processEvents events idf = combined_processEvents events ClassIdField"
proof -
  have s: "perClass_startSession = combined_startSession"
    by (intro ext) (simp add: perClass_startSession_def combined_startSession_def)
  have p: "perClass_pauseSession = combined_pauseSession"
    by (intro ext) (simp add: perClass_pauseSession_def combined_pauseSession_def)
  have u: "perClass_unpauseSession = combined_unpauseSession"
    by (intro ext) (simp add: perClass_unpauseSession_def combined_unpauseSession_def)
  have f: "perClass_finishSession = combined_finishSession"
    by (intro ext) (simp add: perClass_finishSession_def combined_finishSession_def)
  have step: "perClass_processEvent = (\<lambda>ev. combined_processEvent ev ClassIdField)"
    unfolding perClass_processEvent_def combined_processEvent_def s p u f
    by (intro ext) simp
  show ?thesis
    by (simp add: step perClass_processEvents_def combined_processEvents_def)
qed

theorem perClass_refines_combined_witness:
  "perClass_processEvents
     [mkEvent 1 7 ''t'' ''started'' 1, mkEvent 2 7 ''t'' ''application-paused'' 3,
      mkEvent 1 7 ''t'' ''application-unpaused'' 4, mkEvent 2 7 ''t'' ''finished'' 9] ClassIdField
   = [(7, 7)]
   \<and> combined_processEvents
     [mkEvent 1 7 ''t'' ''started'' 1, mkEvent 2 7 ''t'' ''application-paused'' 3,
      mkEvent 1 7 ''t'' ''application-unpaused'' 4, mkEvent 2 7 ''t'' ''finished'' 9] ClassIdField
   = [(7, 7)]"
proof -
  have "combined_processEvents
     [mkEvent 1 7 ''t'' ''started'' 1, mkEvent 2 7 ''t'' ''application-paused'' 3,
      mkEvent 1 7 ''t'' ''application-unpaused'' 4, mkEvent 2 7 ''t'' ''finished'' 9] ClassIdField
   = [(7, 7)]"
    by (simp add: combined_processEvents_def combined_processEvent_def Let_def mkEvent_def
        sessionKey_7t combined_startSession_def combined_pauseSession_def
        combined_unpauseSession_def combined_finishSession_def addToTotal_def setProp_def)
  then show ?thesis
    using perClass_refines_combined [where idf = ClassIdField and events =
       "[mkEvent 1 7 ''t'' ''started'' 1, mkEvent 2 7 ''t'' ''application-paused'' 3,
      mkEvent 1 7 ''t'' ''application-unpaused'' 4, mkEvent 2 7 ''t'' ''finished'' 9]"]
    by simp
qed

end
